theory Spec2Isabelle
  imports Main "HOL-Library.Multiset"
begin

section \<open>The NFT search widget of \<open>src/components/Demo.tsx\<close>\<close>

text \<open>
  The component keeps its search session in React state and changes it only through
  \<open>searchNFTs\<close>, \<open>loadMore\<close> and the intersection observer. The embedding passes the
  state explicitly, splits the asynchronous \<open>searchNFTs\<close> at its \<open>await\<close>s and logs
  every request it issues.

  Strings are lists of code units below 256. JavaScript's \<open>a || b\<close> on a possibly missing
  string takes \<open>b\<close> when \<open>a\<close> is \<open>undefined\<close>, \<open>null\<close> or empty; a missing field is \<open>None\<close>.
  A response body that is read has the top-level fields the component reads from it. Its
  list may hold elements that are no objects, on which a property read throws: such a
  body is \<open>Unreadable\<close>. A body that is no object itself throws at its first read, before
  any state is set, as a rejection does.
\<close>

subsection \<open>Data\<close>

text \<open>\<open>interface NFTResult\<close>; \<open>media\<close> is the list of \<open>{raw, gateway}\<close> pairs.\<close>

record media_entry =
  raw :: string
  gateway :: string

record contract_info =
  address :: string
  name :: string
  symbol :: string

record NFTResult =
  contract :: contract_info
  tokenId :: string
  title :: string
  description :: string
  media :: "media_entry list"

text \<open>The shapes the indexing service answers with (section 6 of the specification).\<close>

record image_data =
  originalUrl :: "string option"
  thumbnailUrl :: "string option"
  pngUrl :: "string option"
  url :: "string option"

record raw_nft =
  nft_contract_address :: string
  nft_contract_symbol :: "string option"
  nft_tokenId :: string
  nft_title :: "string option"
  nft_name :: "string option"
  nft_description :: "string option"
  nft_image :: "image_data option"

record contract_match =
  match_address :: string
  match_name :: "string option"

record search_data =
  contracts :: "contract_match list option"

record contract_data =
  contractMetadata_name :: "string option"

record nfts_data =
  nfts :: "raw_nft list option"
  nfts_pageKey :: "string option"

subsection \<open>JavaScript helpers\<close>

definition truthy :: "string option \<Rightarrow> bool" where
  "truthy v = (case v of None \<Rightarrow> False | Some s \<Rightarrow> s \<noteq> [])"

text \<open>\<open>a || b\<close> where \<open>b\<close> is a string.\<close>

definition or_else :: "string option \<Rightarrow> string \<Rightarrow> string" where
  "or_else v d = (case v of None \<Rightarrow> d | Some s \<Rightarrow> if s = [] then d else s)"

text \<open>\<open>nft.image?.field\<close>\<close>

definition image_field :: "(image_data \<Rightarrow> string option) \<Rightarrow> image_data option \<Rightarrow> string option" where
  "image_field f img = (case img of None \<Rightarrow> None | Some i \<Rightarrow> f i)"

subsection \<open>Numbers and \<open>parseInt\<close>\<close>

text \<open>
  A Number that \<open>parseInt\<close> or the difference of two such can be: not a number, an
  infinity, or a double holding an integer. Both zeros are \<open>Fin 0\<close>.
\<close>

datatype number = NaN | NegInfinity | Fin int | Infinity

function bit_length :: "int \<Rightarrow> nat" where
  "bit_length n = (if n \<le> 0 then 0 else Suc (bit_length (n div 2)))"
  by pat_completeness auto
termination
  by (relation "measure nat") auto

declare bit_length.simps [simp del]

text \<open>
  The double nearest to a non-negative integer, ties to the even significand of 53 bits;
  the result is at least \<open>2 ^ 1024\<close> where the double is infinite. (ECMAScript lets an
  implementation drop decimal digits after the twentieth before rounding; the value here
  is the one rounded from all digits. Integers up to \<open>2 ^ 53\<close> are not affected.)
\<close>

definition f64_round :: "int \<Rightarrow> int" where
  "f64_round n =
     (if n < 2 ^ 53 then n
      else let e = bit_length n - 53;
               q = n div 2 ^ e;
               r = n mod 2 ^ e;
               h = 2 ^ (e - 1)
           in (if h < r \<or> (r = h \<and> odd q) then q + 1 else q) * 2 ^ e)"

definition to_number :: "int \<Rightarrow> number" where
  "to_number i =
     (let m = f64_round \<bar>i\<bar>
      in if 2 ^ 1024 \<le> m then (if i < 0 then NegInfinity else Infinity)
         else Fin (if i < 0 then - m else m))"

definition isWhiteSpace :: "char \<Rightarrow> bool" where
  "isWhiteSpace c = (c \<in> set [CHR 0x09, CHR 0x0A, CHR 0x0B, CHR 0x0C, CHR 0x0D, CHR 0x20, CHR 0xA0])"

definition digit_value :: "char \<Rightarrow> int option" where
  "digit_value c =
     (let n = (of_char c :: int)
      in if 48 \<le> n \<and> n \<le> 57 then Some (n - 48)
         else if 97 \<le> n \<and> n \<le> 102 then Some (n - 87)
         else if 65 \<le> n \<and> n \<le> 70 then Some (n - 55)
         else None)"

definition is_digit :: "int \<Rightarrow> char \<Rightarrow> bool" where
  "is_digit R c = (case digit_value c of None \<Rightarrow> False | Some d \<Rightarrow> d < R)"

definition digits_value :: "int \<Rightarrow> string \<Rightarrow> int" where
  "digits_value R Z = fold (\<lambda>c acc. acc * R + the (digit_value c)) Z 0"

text \<open>
  The integer \<open>parseInt(s)\<close> reads before it is rounded to a double: leading white space
  skipped, an optional sign, an optional \<open>0x\<close> or \<open>0X\<close> that selects radix 16, then the
  longest run of digits; \<open>None\<close> when that run is empty.
\<close>

definition mathInt :: "string \<Rightarrow> int option" where
  "mathInt s =
     (let S = dropWhile isWhiteSpace s;
          sign = (case S of c # _ \<Rightarrow> if c = CHR ''-'' then - 1 else 1 | [] \<Rightarrow> (1 :: int));
          S1 = (case S of c # rest \<Rightarrow> if c = CHR ''-'' \<or> c = CHR ''+'' then rest else S | [] \<Rightarrow> S);
          hex = (case S1 of a # b # _ \<Rightarrow> a = CHR ''0'' \<and> (b = CHR ''x'' \<or> b = CHR ''X'') | _ \<Rightarrow> False);
          R = (if hex then 16 else 10);
          S2 = (if hex then drop 2 S1 else S1);
          Z = takeWhile (is_digit R) S2
      in if Z = [] then None else Some (sign * digits_value R Z))"

definition parseInt :: "string \<Rightarrow> number" where
  "parseInt s = (case mathInt s of None \<Rightarrow> NaN | Some i \<Rightarrow> to_number i)"

text \<open>Subtraction of two such Numbers.\<close>

fun minus_number :: "number \<Rightarrow> number \<Rightarrow> number" where
  "minus_number NaN _ = NaN"
| "minus_number _ NaN = NaN"
| "minus_number Infinity Infinity = NaN"
| "minus_number NegInfinity NegInfinity = NaN"
| "minus_number Infinity _ = Infinity"
| "minus_number NegInfinity _ = NegInfinity"
| "minus_number (Fin a) Infinity = NegInfinity"
| "minus_number (Fin a) NegInfinity = Infinity"
| "minus_number (Fin a) (Fin b) = to_number (a - b)"

fun is_positive :: "number \<Rightarrow> bool" where
  "is_positive Infinity = True"
| "is_positive (Fin v) = (0 < v)"
| "is_positive _ = False"

text \<open>The order of the Numbers that are not \<open>NaN\<close>.\<close>

fun number_le :: "number \<Rightarrow> number \<Rightarrow> bool" where
  "number_le NaN _ = False"
| "number_le _ NaN = False"
| "number_le NegInfinity _ = True"
| "number_le _ Infinity = True"
| "number_le (Fin a) (Fin b) = (a \<le> b)"
| "number_le _ _ = False"

subsection \<open>\<open>Array.prototype.sort\<close>\<close>

text \<open>
  The sort is stable, and for a comparator that orders its arguments consistently the
  result is the one sorted arrangement that keeps equal elements in their order: the
  insertion sort below computes it. A comparator result that is not positive (negative,
  zero, \<open>NaN\<close>) leaves the earlier element first. With a comparator that is not
  consistent, which this one is only when some token id parses to \<open>NaN\<close>, ECMAScript
  leaves the order to the implementation; the result is a permutation in any case, and
  nothing below says more of that case.
\<close>

fun insort_by :: "('a \<Rightarrow> 'a \<Rightarrow> number) \<Rightarrow> 'a \<Rightarrow> 'a list \<Rightarrow> 'a list" where
  "insort_by c x [] = [x]"
| "insort_by c x (y # ys) =
     (if is_positive (c x y) then y # insort_by c x ys else x # y # ys)"

definition sort_by :: "('a \<Rightarrow> 'a \<Rightarrow> number) \<Rightarrow> 'a list \<Rightarrow> 'a list" where
  "sort_by c xs = foldr (insort_by c) xs []"

subsection \<open>Merging a page into the accumulation\<close>

text \<open>\<open>(a, b) => parseInt(a.tokenId) - parseInt(b.tokenId)\<close>\<close>

definition compareFn :: "NFTResult \<Rightarrow> NFTResult \<Rightarrow> number" where
  "compareFn a b = minus_number (parseInt (tokenId a)) (parseInt (tokenId b))"

text \<open>The \<open>filter\<close> with the \<open>seen\<close> set.\<close>

fun filter_unseen :: "string set \<Rightarrow> NFTResult list \<Rightarrow> NFTResult list" where
  "filter_unseen seen [] = []"
| "filter_unseen seen (nft # rest) =
     (let duplicate = (tokenId nft \<in> seen);
          seen' = insert (tokenId nft) seen
      in if duplicate then filter_unseen seen' rest else nft # filter_unseen seen' rest)"

text \<open>The updater passed to \<open>setSearchResults\<close>.\<close>

definition mergeResults :: "bool \<Rightarrow> NFTResult list \<Rightarrow> NFTResult list \<Rightarrow> NFTResult list" where
  "mergeResults resetResults prevResults formattedNFTs =
     (let newResults = (if resetResults then formattedNFTs else prevResults @ formattedNFTs);
          deduplicatedNFTs = filter_unseen {} newResults
      in sort_by compareFn deduplicatedNFTs)"

subsection \<open>Session state, requests and responses\<close>

text \<open>The \<open>useState\<close> cells that \<open>searchNFTs\<close> writes.\<close>

record state =
  searchResults :: "NFTResult list"
  isLoading :: bool
  error :: "string option"
  showSuggestions :: bool
  isLoadingMore :: bool
  hasMore :: bool
  pageKey :: "string option"
  currentContractAddress :: "string option"

definition initial_state :: state where
  "initial_state =
     \<lparr>searchResults = [], isLoading = False, error = None, showSuggestions = False,
      isLoadingMore = False, hasMore = True, pageKey = None, currentContractAddress = None\<rparr>"

text \<open>
  The three requests: \<open>searchContractMetadata\<close> with \<open>query\<close>, \<open>page\<close> and \<open>pageSize\<close>;
  \<open>getContractMetadata\<close> with the address; \<open>getNFTsForCollection\<close> with the address, the
  \<open>limit\<close> and the \<open>pageKey\<close> parameter when it is appended.
\<close>

datatype request =
  SearchContractMetadata string nat nat
| GetContractMetadata string
| GetNFTsForCollection string nat "string option"

text \<open>
  What a call does outside the state: it issues requests, and its \<open>catch\<close> block calls
  \<open>console.error\<close> with the thrown value (\<open>Some m\<close> for an \<open>Error\<close> with message \<open>m\<close>,
  \<open>None\<close> for any other value).
\<close>

datatype effect = Fetch request | ConsoleError "string option"

text \<open>
  How an awaited request ends: \<open>fetch\<close>, \<open>response.json()\<close> or the first read of the body
  throws a value; the response is not \<open>ok\<close>; the body is read; or the body is read and has
  its top-level fields, but the elements of its list are no objects (a listing item
  without \<open>contract\<close>, a match that is \<open>null\<close>), so that the first read of a property of
  an element throws the value given.
\<close>

datatype 'a fetched = Rejected "string option" | NotOk | Resolved 'a | Unreadable 'a "string option"

record responses =
  searchResponse :: "search_data fetched"
  contractResponse :: "contract_data fetched"
  nftsResponse :: "nfts_data fetched"

text \<open>
  The arguments of one call of \<open>searchNFTs\<close>, and the \<open>pageKey\<close> it closes over: the value
  of the render that created the function, which no \<open>setPageKey\<close> changes.
\<close>

record call =
  query :: string
  contractAddress :: "string option"
  resetResults :: bool
  closure_pageKey :: "string option"

text \<open>A call suspended at an \<open>await\<close>, with its local \<open>targetAddress\<close> and \<open>contractName\<close>.\<close>

datatype pending =
  AwaitSearch call
| AwaitContract call string
| AwaitNFTs call string string

type_synonym outcome = "state \<times> effect list \<times> pending option"

subsection \<open>\<open>searchNFTs\<close>\<close>

definition isHexChar :: "char \<Rightarrow> bool" where
  "isHexChar c = (c \<in> set ''0123456789abcdefABCDEF'')"

text \<open>\<open>/^0x[a-fA-F0-9]{40}$/i.test(query)\<close>\<close>

definition isAddress :: "string \<Rightarrow> bool" where
  "isAddress q =
     (case q of
        a # b # rest \<Rightarrow>
          a = CHR ''0'' \<and> (b = CHR ''x'' \<or> b = CHR ''X'') \<and> length rest = 40 \<and> list_all isHexChar rest
      | _ \<Rightarrow> False)"

definition formatNFT :: "string \<Rightarrow> raw_nft \<Rightarrow> NFTResult" where
  "formatNFT contractName nft =
     \<lparr>contract = \<lparr>address = nft_contract_address nft, name = contractName,
                  symbol = or_else (nft_contract_symbol nft) []\<rparr>,
      tokenId = nft_tokenId nft,
      title = or_else (nft_title nft) (or_else (nft_name nft) (contractName @ '' #'' @ nft_tokenId nft)),
      description = or_else (nft_description nft) [],
      media =
        [\<lparr>raw = or_else (image_field originalUrl (nft_image nft))
                  (or_else (image_field thumbnailUrl (nft_image nft))
                    (or_else (image_field pngUrl (nft_image nft))
                      (or_else (image_field url (nft_image nft)) []))),
          gateway = or_else (image_field thumbnailUrl (nft_image nft))
                      (or_else (image_field pngUrl (nft_image nft))
                        (or_else (image_field url (nft_image nft))
                          (or_else (image_field originalUrl (nft_image nft)) [])))\<rparr>]\<rparr>"

definition finally_block :: "state \<Rightarrow> state" where
  "finally_block st = st\<lparr>isLoading := False, isLoadingMore := False\<rparr>"

text \<open>\<open>err instanceof Error ? err.message : 'An error occurred while searching'\<close>\<close>

definition surfaced :: "string option \<Rightarrow> string" where
  "surfaced err = (case err of Some m \<Rightarrow> m | None \<Rightarrow> ''An error occurred while searching'')"

text \<open>A \<open>throw\<close> inside the \<open>try\<close>: the \<open>catch\<close> block, then \<open>finally\<close>.\<close>

definition throw :: "state \<Rightarrow> call \<Rightarrow> string option \<Rightarrow> outcome" where
  "throw st c err =
     (let st1 = st\<lparr>error := Some (surfaced err)\<rparr>;
          st2 = (if resetResults c then st1\<lparr>searchResults := []\<rparr> else st1)
      in (finally_block st2, [ConsoleError err], None))"

text \<open>From \<open>if (targetAddress)\<close> to the \<open>await\<close> of the contract metadata.\<close>

definition resolved :: "state \<Rightarrow> call \<Rightarrow> string \<Rightarrow> outcome" where
  "resolved st c targetAddress =
     ((if targetAddress \<noteq> [] then st\<lparr>currentContractAddress := Some targetAddress\<rparr> else st),
      [Fetch (GetContractMetadata targetAddress)],
      Some (AwaitContract c targetAddress))"

text \<open>From the entry of \<open>searchNFTs\<close> to its first \<open>await\<close>.\<close>

definition searchNFTs_begin :: "state \<Rightarrow> call \<Rightarrow> outcome" where
  "searchNFTs_begin st c =
     (if query c = [] \<and> \<not> truthy (contractAddress c) then (st, [], None)
      else
        let st1 = (if resetResults c
                   then st\<lparr>isLoading := True, searchResults := [], pageKey := None, hasMore := True\<rparr>
                   else st\<lparr>isLoadingMore := True\<rparr>);
            st2 = st1\<lparr>error := None, showSuggestions := False\<rparr>
        in if truthy (contractAddress c) then resolved st2 c (the (contractAddress c))
           else if isAddress (query c) then resolved st2 c (query c)
           else (st2, [Fetch (SearchContractMetadata (query c) 1 1)], Some (AwaitSearch c)))"

text \<open>
  The name search has ended. Of the matches only the first is read, at
  \<open>searchData.contracts[0].address\<close>.
\<close>

definition on_search :: "state \<Rightarrow> call \<Rightarrow> search_data fetched \<Rightarrow> outcome" where
  "on_search st c resp =
     (case resp of
        Rejected err \<Rightarrow> throw st c err
      | NotOk \<Rightarrow> throw st c (Some ''Failed to search for collection'')
      | Resolved searchData \<Rightarrow>
          (case contracts searchData of
             Some (m # _) \<Rightarrow> resolved st c (match_address m)
           | _ \<Rightarrow> (finally_block (st\<lparr>error := Some ''Collection not found'', searchResults := []\<rparr>),
                   [], None))
      | Unreadable searchData err \<Rightarrow>
          (case contracts searchData of
             Some (m # _) \<Rightarrow> throw st c err
           | _ \<Rightarrow> (finally_block (st\<lparr>error := Some ''Collection not found'', searchResults := []\<rparr>),
                   [], None)))"

text \<open>The contract metadata request has ended. Its body has no list to go through.\<close>

definition on_contract :: "state \<Rightarrow> call \<Rightarrow> string \<Rightarrow> contract_data fetched \<Rightarrow> outcome" where
  "on_contract st c targetAddress resp =
     (case resp of
        Rejected err \<Rightarrow> throw st c err
      | NotOk \<Rightarrow> throw st c (Some ''Failed to fetch contract metadata'')
      | Resolved contractData \<Rightarrow>
          (let contractName = or_else (contractMetadata_name contractData) (query c)
           in (st,
               [Fetch (GetNFTsForCollection targetAddress 100
                  (if truthy (closure_pageKey c) then closure_pageKey c else None))],
               Some (AwaitNFTs c targetAddress contractName)))
      | Unreadable contractData _ \<Rightarrow>
          (let contractName = or_else (contractMetadata_name contractData) (query c)
           in (st,
               [Fetch (GetNFTsForCollection targetAddress 100
                  (if truthy (closure_pageKey c) then closure_pageKey c else None))],
               Some (AwaitNFTs c targetAddress contractName))))"

text \<open>
  The listing request has ended. The cursor and \<open>hasMore\<close> are set before the items are
  gone through, so that an item on which \<open>nft.contract.address\<close> throws leaves them set.
\<close>

definition on_nfts :: "state \<Rightarrow> call \<Rightarrow> string \<Rightarrow> nfts_data fetched \<Rightarrow> outcome" where
  "on_nfts st c contractName resp =
     (case resp of
        Rejected err \<Rightarrow> throw st c err
      | NotOk \<Rightarrow> throw st c (Some ''Failed to fetch NFTs from collection'')
      | Resolved nftsData \<Rightarrow>
          (case nfts nftsData of
             Some (n # ns) \<Rightarrow>
               (let st1 = st\<lparr>pageKey := (if truthy (nfts_pageKey nftsData) then nfts_pageKey nftsData else None),
                             hasMore := truthy (nfts_pageKey nftsData)\<rparr>;
                    formattedNFTs = map (formatNFT contractName) (n # ns);
                    st2 = st1\<lparr>searchResults := mergeResults (resetResults c) (searchResults st1) formattedNFTs\<rparr>
                in (finally_block st2, [], None))
           | _ \<Rightarrow>
               (let st1 = (if resetResults c
                           then st\<lparr>error := Some ''No NFTs found in this collection'', searchResults := []\<rparr>
                           else st);
                    st2 = st1\<lparr>hasMore := False\<rparr>
                in (finally_block st2, [], None)))
      | Unreadable nftsData err \<Rightarrow>
          (case nfts nftsData of
             Some (n # ns) \<Rightarrow>
               (let st1 = st\<lparr>pageKey := (if truthy (nfts_pageKey nftsData) then nfts_pageKey nftsData else None),
                             hasMore := truthy (nfts_pageKey nftsData)\<rparr>
                in throw st1 c err)
           | _ \<Rightarrow>
               (let st1 = (if resetResults c
                           then st\<lparr>error := Some ''No NFTs found in this collection'', searchResults := []\<rparr>
                           else st);
                    st2 = st1\<lparr>hasMore := False\<rparr>
                in (finally_block st2, [], None))))"

text \<open>A suspended call goes on with the answer to the request it awaits.\<close>

fun resume :: "state \<Rightarrow> pending \<Rightarrow> responses \<Rightarrow> outcome" where
  "resume st (AwaitSearch c) rs = on_search st c (searchResponse rs)"
| "resume st (AwaitContract c targetAddress) rs = on_contract st c targetAddress (contractResponse rs)"
| "resume st (AwaitNFTs c targetAddress contractName) rs = on_nfts st c contractName (nftsResponse rs)"

text \<open>One call run to its end with nothing in between: it awaits at most three times.\<close>

definition deliver :: "responses \<Rightarrow> outcome \<Rightarrow> outcome" where
  "deliver rs out =
     (case out of
        (st, effs, None) \<Rightarrow> (st, effs, None)
      | (st, effs, Some p) \<Rightarrow>
          (case resume st p rs of (st', effs', p') \<Rightarrow> (st', effs @ effs', p')))"

definition searchNFTs :: "state \<Rightarrow> call \<Rightarrow> responses \<Rightarrow> state \<times> effect list" where
  "searchNFTs st c rs =
     (case deliver rs (deliver rs (deliver rs (searchNFTs_begin st c))) of
        (st', effs, _) \<Rightarrow> (st', effs))"

subsection \<open>\<open>loadMore\<close> and the intersection observer\<close>

text \<open>
  Both read \<open>isLoading\<close>, \<open>isLoadingMore\<close>, \<open>hasMore\<close> and \<open>currentContractAddress\<close> of the
  render that created them; their dependency lists name these, so they are the state's.
  The \<open>pageKey\<close> that the \<open>searchNFTs\<close> inside \<open>loadMore\<close> closes over is in no dependency
  list and is an argument here.
\<close>

definition loadMore :: "state \<Rightarrow> string option \<Rightarrow> outcome" where
  "loadMore st pk =
     (if \<not> isLoadingMore st \<and> hasMore st \<and> truthy (currentContractAddress st)
      then searchNFTs_begin st
             \<lparr>query = the (currentContractAddress st), contractAddress = currentContractAddress st,
              resetResults = False, closure_pageKey = pk\<rparr>
      else (st, [], None))"

definition observerCallback :: "state \<Rightarrow> bool \<Rightarrow> string option \<Rightarrow> outcome" where
  "observerCallback st isIntersecting pk =
     (if isIntersecting \<and> \<not> isLoading st \<and> \<not> isLoadingMore st \<and> hasMore st
      then loadMore st pk
      else (st, [], None))"

subsection \<open>The event loop\<close>

text \<open>
  The state, the calls suspended at an \<open>await\<close> and everything done so far. An event is a
  search begun from the interface (\<open>resetResults\<close> takes its default), the observer
  firing, or the request of one suspended call ending.
\<close>

record system =
  ui :: state
  inflight :: "pending list"
  effects :: "effect list"

datatype event =
  Search string "string option" "string option"
| Intersect bool "string option"
| Response nat responses

definition initial_system :: system where
  "initial_system = \<lparr>ui = initial_state, inflight = [], effects = []\<rparr>"

definition suspended :: "pending option \<Rightarrow> pending list" where
  "suspended p = (case p of None \<Rightarrow> [] | Some q \<Rightarrow> [q])"

definition launch :: "system \<Rightarrow> outcome \<Rightarrow> system" where
  "launch sys out =
     (case out of (st, effs, p) \<Rightarrow>
        \<lparr>ui = st, inflight = inflight sys @ suspended p, effects = effects sys @ effs\<rparr>)"

fun step :: "system \<Rightarrow> event \<Rightarrow> system" where
  "step sys (Search q ca pk) =
     launch sys (searchNFTs_begin (ui sys)
       \<lparr>query = q, contractAddress = ca, resetResults = True, closure_pageKey = pk\<rparr>)"
| "step sys (Intersect isIntersecting pk) = launch sys (observerCallback (ui sys) isIntersecting pk)"
| "step sys (Response i rs) =
     (if i < length (inflight sys)
      then (case resume (ui sys) (inflight sys ! i) rs of (st, effs, p) \<Rightarrow>
              \<lparr>ui = st,
               inflight = take i (inflight sys) @ suspended p @ drop (Suc i) (inflight sys),
               effects = effects sys @ effs\<rparr>)
      else sys)"

definition run :: "system \<Rightarrow> event list \<Rightarrow> system" where
  "run sys evs = fold (\<lambda>ev s. step s ev) evs sys"

section \<open>Vocabulary of the properties\<close>

subsection \<open>Order of token ids\<close>

text \<open>
  The numeric value of a token id is the integer its text denotes, before any rounding.
  A token id is exact when that integer exists and a double holds it without rounding.
\<close>

definition numeric_le :: "string \<Rightarrow> string \<Rightarrow> bool" where
  "numeric_le s t =
     (case mathInt s of None \<Rightarrow> False
      | Some i \<Rightarrow> (case mathInt t of None \<Rightarrow> False | Some j \<Rightarrow> i \<le> j))"

definition ascending_tokenIds :: "NFTResult list \<Rightarrow> bool" where
  "ascending_tokenIds xs = sorted_wrt (\<lambda>a b. numeric_le (tokenId a) (tokenId b)) xs"

definition exact_tokenId :: "string \<Rightarrow> bool" where
  "exact_tokenId s = (case mathInt s of None \<Rightarrow> False | Some i \<Rightarrow> \<bar>i\<bar> \<le> 2 ^ 53)"

text \<open>An accumulation is empty or has come out of the updater.\<close>

definition merged :: "NFTResult list \<Rightarrow> bool" where
  "merged xs = (xs = [] \<or> (\<exists>r prev page. xs = mergeResults r prev page))"

subsection \<open>Requests of a call\<close>

datatype endpoint = SearchEndpoint | ContractEndpoint | ListingEndpoint

fun endpoint_of :: "request \<Rightarrow> endpoint" where
  "endpoint_of (SearchContractMetadata _ _ _) = SearchEndpoint"
| "endpoint_of (GetContractMetadata _) = ContractEndpoint"
| "endpoint_of (GetNFTsForCollection _ _ _) = ListingEndpoint"

fun requests :: "effect list \<Rightarrow> request list" where
  "requests [] = []"
| "requests (Fetch r # effs) = r # requests effs"
| "requests (ConsoleError _ # effs) = requests effs"

text \<open>
  The address pattern in the words of the specification: 40 hexadecimal characters of
  either case, with or without a leading \<open>0x\<close>. It is compared with \<open>isAddress\<close>.
\<close>

definition spec_address_pattern :: "string \<Rightarrow> bool" where
  "spec_address_pattern q =
     (let body = (case q of
                    a # b # rest \<Rightarrow>
                      if a = CHR ''0'' \<and> (b = CHR ''x'' \<or> b = CHR ''X'') then rest else q
                  | _ \<Rightarrow> q)
      in length body = 40 \<and> list_all isHexChar body)"

subsection \<open>Failed requests\<close>

text \<open>
  The value thrown when an awaited request fails by a network error or a response that is
  not \<open>ok\<close>: the rejection's value, or the \<open>Error\<close> the component makes for that request.
  \<open>None\<close> when the request did not fail so.
\<close>

definition failure :: "string \<Rightarrow> 'a fetched \<Rightarrow> string option option" where
  "failure msg r = (case r of Rejected e \<Rightarrow> Some e | NotOk \<Rightarrow> Some (Some msg) | _ \<Rightarrow> None)"

fun thrown :: "pending \<Rightarrow> responses \<Rightarrow> string option option" where
  "thrown (AwaitSearch _) rs = failure ''Failed to search for collection'' (searchResponse rs)"
| "thrown (AwaitContract _ _) rs = failure ''Failed to fetch contract metadata'' (contractResponse rs)"
| "thrown (AwaitNFTs _ _ _) rs = failure ''Failed to fetch NFTs from collection'' (nftsResponse rs)"

fun call_of :: "pending \<Rightarrow> call" where
  "call_of (AwaitSearch c) = c"
| "call_of (AwaitContract c _) = c"
| "call_of (AwaitNFTs c _ _) = c"

subsection \<open>Invariants of one call\<close>

definition kept :: "state \<Rightarrow> call \<Rightarrow> state \<Rightarrow> bool" where
  "kept st c s =
     (if resetResults c then searchResults s = [] \<and> hasMore s
      else searchResults s = searchResults st \<and> hasMore s = hasMore st)"

fun allowed :: "pending \<Rightarrow> endpoint set" where
  "allowed (AwaitSearch _) = {SearchEndpoint}"
| "allowed (AwaitContract _ _) = {SearchEndpoint, ContractEndpoint}"
| "allowed (AwaitNFTs _ _ _) = {SearchEndpoint, ContractEndpoint, ListingEndpoint}"

text \<open>
  No endpoint is requested twice; while a call is suspended it is still the same call,
  a first page has emptied the accumulation and set \<open>hasMore\<close>, a continuation has left
  both alone, and the endpoint of the next request is still unused.
\<close>

definition sound :: "state \<Rightarrow> call \<Rightarrow> outcome \<Rightarrow> bool" where
  "sound st c out =
     (case out of (s, effs, p) \<Rightarrow>
        distinct (map endpoint_of (requests effs)) \<and>
        (case p of
           Some q \<Rightarrow> call_of q = c \<and> kept st c s \<and>
                     set (map endpoint_of (requests effs)) \<subseteq> allowed q
         | None \<Rightarrow> True))"

text \<open>The awaits a call still has before it.\<close>

fun stage :: "pending option \<Rightarrow> nat" where
  "stage None = 0"
| "stage (Some (AwaitNFTs _ _ _)) = 1"
| "stage (Some (AwaitContract _ _)) = 2"
| "stage (Some (AwaitSearch _)) = 3"

definition no_search :: "outcome \<Rightarrow> bool" where
  "no_search out =
     (case out of (s, effs, p) \<Rightarrow>
        SearchEndpoint \<notin> set (map endpoint_of (requests effs)) \<and> (\<forall>c. p \<noteq> Some (AwaitSearch c)))"

subsection \<open>Runs of the event loop\<close>

text \<open>A run in which no search is begun from the interface while a call is suspended.\<close>

fun calm :: "system \<Rightarrow> event list \<Rightarrow> bool" where
  "calm sys [] = True"
| "calm sys (ev # evs) =
     ((case ev of Search _ _ _ \<Rightarrow> inflight sys = [] | _ \<Rightarrow> True) \<and> calm (step sys ev) evs)"

definition one_at_a_time :: "system \<Rightarrow> bool" where
  "one_at_a_time sys =
     (length (inflight sys) \<le> 1 \<and>
      (inflight sys \<noteq> [] \<longrightarrow> isLoading (ui sys) \<or> isLoadingMore (ui sys)))"

subsection \<open>Example inputs\<close>

definition azuki :: string where
  "azuki = ''0xED5AF388653567Af2F388E6224dC7C4b3241C544''"

definition doodles :: string where
  "doodles = ''0x8a90CAb2b38dba80c64b7734e58Ee1dB38B8992e''"

definition bare_hex :: string where
  "bare_hex = ''BC4CA0EdA7647A8aB7C2061c2E118A18a936f13D''"

text \<open>
  A popular-collection pick, a continuation of it, a query typed into the input, and the
  calls for a second collection.
\<close>

definition azuki_pick :: call where
  "azuki_pick = \<lparr>query = ''Azuki'', contractAddress = Some azuki, resetResults = True, closure_pageKey = None\<rparr>"

definition azuki_more :: call where
  "azuki_more = \<lparr>query = azuki, contractAddress = Some azuki, resetResults = False, closure_pageKey = Some ''k1''\<rparr>"

definition typed :: "string \<Rightarrow> call" where
  "typed q = \<lparr>query = q, contractAddress = None, resetResults = True, closure_pageKey = None\<rparr>"

definition doodles_call :: "bool \<Rightarrow> string \<Rightarrow> call" where
  "doodles_call r q = \<lparr>query = q, contractAddress = Some doodles, resetResults = r, closure_pageKey = None\<rparr>"

definition token :: "string \<Rightarrow> string option \<Rightarrow> raw_nft" where
  "token tid ttl =
     \<lparr>nft_contract_address = azuki, nft_contract_symbol = None, nft_tokenId = tid, nft_title = ttl,
      nft_name = None, nft_description = None, nft_image = None\<rparr>"

definition small_page :: nfts_data where
  "small_page = \<lparr>nfts = Some [token ''10'' None, token ''9'' None, token ''10'' (Some ''again'')],
                 nfts_pageKey = Some ''k1''\<rparr>"

definition resent_page :: nfts_data where
  "resent_page = \<lparr>nfts = Some [token ''9'' (Some ''resent''), token ''11'' None], nfts_pageKey = None\<rparr>"

definition large_page :: nfts_data where
  "large_page = \<lparr>nfts = Some [token ''9007199254740993'' None, token ''9007199254740992'' None],
                 nfts_pageKey = None\<rparr>"

definition empty_page :: nfts_data where
  "empty_page = \<lparr>nfts = Some [], nfts_pageKey = None\<rparr>"

text \<open>The state after \<open>small_page\<close> has been merged as a first page.\<close>

definition after_small_page :: state where
  "after_small_page = fst (on_nfts initial_state azuki_pick ''Azuki'' (Resolved small_page))"

text \<open>
  Answers: none of the requests is \<open>ok\<close>; the name search has no match; it has one match,
  named otherwise than the contract metadata names the contract.
\<close>

definition all_not_ok :: responses where
  "all_not_ok = \<lparr>searchResponse = NotOk, contractResponse = NotOk, nftsResponse = NotOk\<rparr>"

definition no_match :: responses where
  "no_match = \<lparr>searchResponse = Resolved \<lparr>contracts = Some []\<rparr>,
               contractResponse = NotOk, nftsResponse = NotOk\<rparr>"

definition one_match :: responses where
  "one_match =
     \<lparr>searchResponse = Resolved \<lparr>contracts = Some [\<lparr>match_address = azuki, match_name = Some ''Azuki Official''\<rparr>]\<rparr>,
      contractResponse = Resolved \<lparr>contractMetadata_name = Some ''Azuki''\<rparr>,
      nftsResponse = Resolved \<lparr>nfts = Some [token ''1'' None], nfts_pageKey = None\<rparr>\<rparr>"

definition small_listing :: responses where
  "small_listing =
     \<lparr>searchResponse = NotOk,
      contractResponse = Resolved \<lparr>contractMetadata_name = Some ''Azuki''\<rparr>,
      nftsResponse = Resolved small_page\<rparr>"

text \<open>
  The network is down; the listing request alone is not \<open>ok\<close>; the second item of a
  listing has no \<open>contract\<close>.
\<close>

definition network_down :: responses where
  "network_down =
     \<lparr>searchResponse = Rejected (Some ''Failed to fetch''),
      contractResponse = Rejected (Some ''Failed to fetch''),
      nftsResponse = Rejected (Some ''Failed to fetch'')\<rparr>"

definition listing_not_ok :: responses where
  "listing_not_ok =
     \<lparr>searchResponse = NotOk,
      contractResponse = Resolved \<lparr>contractMetadata_name = Some ''Azuki''\<rparr>,
      nftsResponse = NotOk\<rparr>"

definition broken_listing :: responses where
  "broken_listing =
     \<lparr>searchResponse = NotOk,
      contractResponse = Resolved \<lparr>contractMetadata_name = Some ''Azuki''\<rparr>,
      nftsResponse = Unreadable \<lparr>nfts = Some [token ''11'' None, token ''12'' None], nfts_pageKey = None\<rparr>
                       (Some ''Cannot read properties of undefined'')\<rparr>"

text \<open>
  A collection is picked and answered with \<open>small_page\<close>, and the observer has begun a
  continuation that awaits its first request.
\<close>

definition continuing :: "event list" where
  "continuing =
     [Search ''Azuki'' (Some azuki) None, Response 0 small_listing, Response 0 small_listing,
      Intersect True (Some ''k1'')]"

text \<open>A listing of one token of a collection, with its metadata.\<close>

definition listing :: "string \<Rightarrow> string \<Rightarrow> string option \<Rightarrow> responses" where
  "listing addr tid pk =
     \<lparr>searchResponse = NotOk,
      contractResponse = Resolved \<lparr>contractMetadata_name = None\<rparr>,
      nftsResponse = Resolved
        \<lparr>nfts = Some [\<lparr>nft_contract_address = addr, nft_contract_symbol = None, nft_tokenId = tid,
                       nft_title = None, nft_name = None, nft_description = None, nft_image = None\<rparr>],
         nfts_pageKey = pk\<rparr>\<rparr>"

text \<open>
  Two searches begun one after the other. In the first run the answers to the earlier
  search arrive and the later one is still suspended; in the second the later search is
  answered first, and then the earlier one up to its listing request.
\<close>

definition overlapping_searches :: "event list" where
  "overlapping_searches =
     [Search ''Azuki'' (Some azuki) None,
      Search ''Doodles'' (Some doodles) None,
      Response 0 (listing azuki ''1'' (Some ''k1'')),
      Response 0 (listing azuki ''1'' (Some ''k1''))]"

definition stale_response :: "event list" where
  "stale_response =
     [Search ''Azuki'' (Some azuki) None,
      Search ''Doodles'' (Some doodles) None,
      Response 1 (listing doodles ''7'' (Some ''k7'')),
      Response 1 (listing doodles ''7'' (Some ''k7'')),
      Response 0 (listing azuki ''1'' None)]"

section \<open>Properties\<close>

subsection \<open>Rounding, order and sorting\<close>

lemma bit_length_pos: "0 < n \<Longrightarrow> bit_length n = Suc (bit_length (n div 2))"
  by (simp add: bit_length.simps[of n])

lemma bit_length_bound: "0 < n \<Longrightarrow> 2 ^ (bit_length n - 1) \<le> n"
proof (induction n rule: bit_length.induct)
  case (1 n)
  show ?case
  proof (cases "0 < n div 2")
    case False
    with 1(2) have "n = 1" by presburger
    then show ?thesis by (simp add: bit_length.simps)
  next
    case True
    then have ih: "2 ^ (bit_length (n div 2) - 1) \<le> n div 2" using 1 by simp
    have "bit_length (n div 2) = Suc (bit_length (n div 2) - 1)"
      using bit_length_pos[OF True] by simp
    then have "(2::int) ^ bit_length (n div 2) = 2 * 2 ^ (bit_length (n div 2) - 1)"
      by (metis power_Suc)
    then have "(2::int) ^ (bit_length n - 1) \<le> 2 * (n div 2)"
      using ih bit_length_pos[OF 1(2)] by simp
    then show ?thesis by linarith
  qed
qed

lemma f64_round_pos: assumes n: "0 < n" shows "0 < f64_round n"
proof (cases "n < 2 ^ 53")
  case True then show ?thesis using n by (simp add: f64_round_def)
next
  case False
  have "(2::int) ^ (bit_length n - 53) \<le> 2 ^ (bit_length n - 1)" by (rule power_increasing) auto
  then have "2 ^ (bit_length n - 53) \<le> n" using bit_length_bound[OF n] by linarith
  then have q: "0 < n div 2 ^ (bit_length n - 53)" by (simp add: pos_imp_zdiv_pos_iff)
  then have q1: "0 < n div 2 ^ (bit_length n - 53) + 1" by linarith
  show ?thesis using False q q1 by (simp add: f64_round_def Let_def)
qed

lemma f64_round_small: "\<bar>n\<bar> \<le> 2 ^ 53 \<Longrightarrow> f64_round \<bar>n\<bar> = \<bar>n\<bar>"
proof (cases "\<bar>n\<bar> < 2 ^ 53")
  case True then show ?thesis by (simp add: f64_round_def)
next
  case False
  assume "\<bar>n\<bar> \<le> 2 ^ 53"
  with False have "\<bar>n\<bar> = 2 ^ 53" by simp
  moreover have "f64_round (2 ^ 53) = 2 ^ 53" by code_simp
  ultimately show ?thesis by simp
qed

lemma to_number_small: "\<bar>n\<bar> \<le> 2 ^ 53 \<Longrightarrow> to_number n = Fin n"
  using f64_round_small[of n] by (auto simp: to_number_def Let_def)

lemma is_positive_to_number: "is_positive (to_number i) \<longleftrightarrow> 0 < i"
proof (cases "i = 0")
  case True then show ?thesis by (simp add: to_number_def f64_round_def)
next
  case False
  then have "0 < f64_round \<bar>i\<bar>" by (intro f64_round_pos) simp
  then show ?thesis using False by (auto simp: to_number_def Let_def)
qed

lemma is_positive_minus:
  "a \<noteq> NaN \<Longrightarrow> b \<noteq> NaN \<Longrightarrow> is_positive (minus_number a b) \<longleftrightarrow> \<not> number_le a b"
  by (cases a; cases b) (auto simp: is_positive_to_number)

lemma number_le_trans: "number_le a b \<Longrightarrow> number_le b c \<Longrightarrow> number_le a c"
  by (cases a; cases b; cases c) auto

lemma number_le_total: "a \<noteq> NaN \<Longrightarrow> b \<noteq> NaN \<Longrightarrow> number_le a b \<or> number_le b a"
  by (cases a; cases b) auto

lemma set_insort_by: "set (insort_by c x ys) = insert x (set ys)"
  by (induction ys) auto

lemma mset_insort_by: "mset (insort_by c x ys) = add_mset x (mset ys)"
  by (induction ys) auto

lemma mset_sort_by: "mset (sort_by c xs) = mset xs"
  by (induction xs) (auto simp: sort_by_def mset_insort_by)

lemma set_sort_by: "set (sort_by c xs) = set xs"
  using mset_sort_by[of c xs] by (metis set_mset_mset)

lemma sorted_insort_by:
  assumes "\<forall>y \<in> set ys. k y \<noteq> NaN" "k x \<noteq> NaN"
    and "sorted_wrt (\<lambda>a b. number_le (k a) (k b)) ys"
  shows "sorted_wrt (\<lambda>a b. number_le (k a) (k b)) (insort_by (\<lambda>a b. minus_number (k a) (k b)) x ys)"
  using assms
proof (induction ys)
  case Nil then show ?case by simp
next
  case (Cons y ys)
  show ?case
  proof (cases "number_le (k x) (k y)")
    case True
    then have "\<forall>z \<in> set ys. number_le (k x) (k z)"
      using Cons.prems(3) number_le_trans by auto
    then show ?thesis using True Cons.prems by (simp add: is_positive_minus)
  next
    case False
    then have "number_le (k y) (k x)" using number_le_total Cons.prems by auto
    then show ?thesis using False Cons by (auto simp: is_positive_minus set_insort_by)
  qed
qed

lemma sorted_sort_by:
  "\<forall>y \<in> set xs. k y \<noteq> NaN \<Longrightarrow>
   sorted_wrt (\<lambda>a b. number_le (k a) (k b)) (sort_by (\<lambda>a b. minus_number (k a) (k b)) xs)"
proof (induction xs)
  case Nil then show ?case by (simp add: sort_by_def)
next
  case (Cons x xs)
  then have "sorted_wrt (\<lambda>a b. number_le (k a) (k b)) (sort_by (\<lambda>a b. minus_number (k a) (k b)) xs)" by simp
  moreover have "\<forall>y \<in> set (sort_by (\<lambda>a b. minus_number (k a) (k b)) xs). k y \<noteq> NaN"
    using Cons.prems by (simp add: set_sort_by)
  ultimately have "sorted_wrt (\<lambda>a b. number_le (k a) (k b))
      (insort_by (\<lambda>a b. minus_number (k a) (k b)) x (sort_by (\<lambda>a b. minus_number (k a) (k b)) xs))"
    using Cons.prems by (intro sorted_insort_by) auto
  then show ?case by (simp add: sort_by_def)
qed

lemma set_filter_unseen: "set (filter_unseen seen xs) \<subseteq> set xs"
  by (induction xs arbitrary: seen) (auto simp: Let_def)

lemma tokenIds_filter_unseen:
  "tokenId ` set (filter_unseen seen xs) = tokenId ` set xs - seen"
  by (induction xs arbitrary: seen) (auto simp: Let_def)

lemma distinct_filter_unseen: "distinct (map tokenId (filter_unseen seen xs))"
  by (induction xs arbitrary: seen) (auto simp: Let_def tokenIds_filter_unseen)

lemma filter_unseen_append:
  "filter_unseen seen (xs @ ys) = filter_unseen seen xs @ filter_unseen (seen \<union> tokenId ` set xs) ys"
  by (induction xs arbitrary: seen) (auto simp: Let_def)

lemma filter_unseen_id:
  "distinct (map tokenId xs) \<Longrightarrow> tokenId ` set xs \<inter> seen = {} \<Longrightarrow> filter_unseen seen xs = xs"
  by (induction xs arbitrary: seen) (auto simp: Let_def)

lemma distinct_mergeResults: "distinct (map tokenId (mergeResults r prev page))"
proof -
  have "mset (map tokenId (sort_by compareFn xs)) = mset (map tokenId xs)" for xs
    by (simp add: mset_sort_by)
  then have "distinct (map tokenId (sort_by compareFn xs)) = distinct (map tokenId xs)" for xs
    by (metis distinct_count_atmost_1 set_mset_mset)
  then show ?thesis by (simp add: mergeResults_def Let_def distinct_filter_unseen)
qed

lemma mergeResults_sorted_parse:
  assumes "\<forall>x \<in> set (mergeResults r prev page). parseInt (tokenId x) \<noteq> NaN"
  shows "sorted_wrt (\<lambda>a b. number_le (parseInt (tokenId a)) (parseInt (tokenId b))) (mergeResults r prev page)"
proof -
  define xs where "xs = filter_unseen {} (if r then page else prev @ page)"
  have m: "mergeResults r prev page = sort_by (\<lambda>a b. minus_number (parseInt (tokenId a)) (parseInt (tokenId b))) xs"
    by (simp add: mergeResults_def xs_def compareFn_def[abs_def])
  have "\<forall>x \<in> set xs. parseInt (tokenId x) \<noteq> NaN" using assms by (simp add: m set_sort_by)
  then show ?thesis unfolding m by (rule sorted_sort_by)
qed

lemma exact_parseInt: "exact_tokenId s \<Longrightarrow> parseInt s = Fin (the (mathInt s))"
  by (auto simp: exact_tokenId_def parseInt_def to_number_small split: option.splits)

lemma mergeResults_ascending:
  assumes "\<forall>x \<in> set (mergeResults r prev page). exact_tokenId (tokenId x)"
  shows "ascending_tokenIds (mergeResults r prev page)"
proof -
  have "\<forall>x \<in> set (mergeResults r prev page). parseInt (tokenId x) \<noteq> NaN"
    using assms by (simp add: exact_parseInt)
  then have "sorted_wrt (\<lambda>a b. number_le (parseInt (tokenId a)) (parseInt (tokenId b))) (mergeResults r prev page)"
    by (rule mergeResults_sorted_parse)
  then show ?thesis unfolding ascending_tokenIds_def
  proof (rule sorted_wrt_mono_rel[rotated])
    fix a b assume "a \<in> set (mergeResults r prev page)" "b \<in> set (mergeResults r prev page)"
      and "number_le (parseInt (tokenId a)) (parseInt (tokenId b))"
    then show "numeric_le (tokenId a) (tokenId b)"
      using assms exact_parseInt[of "tokenId a"] exact_parseInt[of "tokenId b"]
      by (auto simp: numeric_le_def exact_tokenId_def split: option.splits)
  qed
qed

lemma mergeResults_continue:
  assumes "distinct (map tokenId prev)"
  shows "mergeResults False prev page =
         sort_by compareFn (prev @ filter_unseen (tokenId ` set prev) page)"
  using assms by (simp add: mergeResults_def filter_unseen_append filter_unseen_id)

lemma mergeResults_nonempty: "mergeResults r prev (x # xs) \<noteq> []"
proof -
  have "filter_unseen {} (ys @ x # xs) \<noteq> []" for ys
    by (cases ys) (simp_all add: Let_def)
  then have "filter_unseen {} (if r then x # xs else prev @ x # xs) \<noteq> []"
    by (metis append_Nil)
  moreover have "sort_by c zs \<noteq> []" if "zs \<noteq> []" for c and zs :: "NFTResult list"
    using that mset_sort_by[of c zs] by (metis mset_zero_iff)
  ultimately show ?thesis by (simp add: mergeResults_def)
qed

subsection \<open>One call\<close>

lemma on_nfts_merge:
  "nfts nd = Some (n # ns) \<Longrightarrow>
   searchResults (fst (on_nfts st c cn (Resolved nd))) =
     mergeResults (resetResults c) (searchResults st) (map (formatNFT cn) (n # ns))"
  by (simp add: on_nfts_def Let_def finally_block_def)

lemma requests_append: "requests (xs @ ys) = requests xs @ requests ys"
  by (induction xs rule: requests.induct) auto

lemma deliver_None: "deliver rs (st, effs, None) = (st, effs, None)"
  by (simp add: deliver_def)

lemma deliver_Some: "deliver rs (st, effs, Some p) = (case resume st p rs of (st', effs', p') \<Rightarrow> (st', effs @ effs', p'))"
  by (simp add: deliver_def)

lemma throw_eq:
  "throw st c err =
     (st\<lparr>error := Some (surfaced err),
         searchResults := (if resetResults c then [] else searchResults st),
         isLoading := False, isLoadingMore := False\<rparr>, [ConsoleError err], None)"
  by (simp add: throw_def finally_block_def Let_def)

lemma sound_begin: "sound st c (searchNFTs_begin st c)"
  by (simp add: sound_def searchNFTs_begin_def resolved_def kept_def Let_def)

lemma sound_ended:
  assumes "distinct (map endpoint_of (requests effs))" and "snd out = (effs', None)"
    and "requests effs' = []"
  shows "sound st c (case out of (s', effs'', p') \<Rightarrow> (s', effs @ effs'', p'))"
  using assms by (cases out) (simp add: sound_def requests_append)

lemma throw_snd: "snd (throw s c err) = ([ConsoleError err], None)"
  by (simp add: throw_eq)

lemma sound_on_search:
  assumes "sound st c (s, effs, Some (AwaitSearch c'))"
  shows "sound st c (case on_search s c' resp of (s', effs', p') \<Rightarrow> (s', effs @ effs', p'))"
proof -
  from assms have c: "c' = c" and d: "distinct (map endpoint_of (requests effs))"
    and k: "kept st c s"
    and a: "set (map endpoint_of (requests effs)) \<subseteq> {SearchEndpoint}"
    by (simp_all add: sound_def)
  have nf: "sound st c (case (finally_block (s\<lparr>error := Some ''Collection not found'', searchResults := []\<rparr>), [], None)
              of (s', effs', p') \<Rightarrow> (s', effs @ effs', p'))"
    using d by (simp add: sound_def)
  have th: "sound st c (case throw s c err of (s', effs', p') \<Rightarrow> (s', effs @ effs', p'))" for err
    using d sound_ended[of effs "throw s c err" "[ConsoleError err]"] by (simp add: throw_snd)
  have re: "sound st c (case resolved s c t of (s', effs', p') \<Rightarrow> (s', effs @ effs', p'))" for t
    using d k a by (auto simp: resolved_def sound_def kept_def requests_append)
  show ?thesis
  proof (cases resp)
    case (Rejected e)
    then show ?thesis using th by (simp add: on_search_def c)
  next
    case NotOk
    then show ?thesis using th by (simp add: on_search_def c)
  next
    case (Resolved sd)
    then show ?thesis using re nf
      by (simp add: on_search_def c split: option.split list.split)
  next
    case (Unreadable sd e)
    then show ?thesis using th nf
      by (simp add: on_search_def c split: option.split list.split)
  qed
qed

lemma sound_on_contract:
  assumes "sound st c (s, effs, Some (AwaitContract c' t))"
  shows "sound st c (case on_contract s c' t resp of (s', effs', p') \<Rightarrow> (s', effs @ effs', p'))"
proof -
  from assms have c: "c' = c" and d: "distinct (map endpoint_of (requests effs))"
    and k: "kept st c s"
    and a: "set (map endpoint_of (requests effs)) \<subseteq> {SearchEndpoint, ContractEndpoint}"
    by (simp_all add: sound_def)
  have th: "sound st c (case throw s c err of (s', effs', p') \<Rightarrow> (s', effs @ effs', p'))" for err
    using d sound_ended[of effs "throw s c err" "[ConsoleError err]"] by (simp add: throw_snd)
  show ?thesis
  proof (cases resp)
    case (Rejected e)
    then show ?thesis using th by (simp add: on_contract_def c)
  next
    case NotOk
    then show ?thesis using th by (simp add: on_contract_def c)
  next
    case (Resolved cd)
    then show ?thesis using d k a
      by (auto simp: on_contract_def c sound_def Let_def requests_append)
  next
    case (Unreadable cd e)
    then show ?thesis using d k a
      by (auto simp: on_contract_def c sound_def Let_def requests_append)
  qed
qed

lemma on_nfts_ends: "\<exists>effs'. snd (on_nfts s c cn resp) = (effs', None) \<and> requests effs' = []"
  by (cases resp)
     (simp_all add: on_nfts_def throw_eq Let_def split: option.split list.split)

lemma sound_on_nfts:
  assumes "sound st c (s, effs, Some (AwaitNFTs c' t cn))"
  shows "sound st c (case on_nfts s c' cn resp of (s', effs', p') \<Rightarrow> (s', effs @ effs', p'))"
proof -
  from assms have d: "distinct (map endpoint_of (requests effs))"
    by (simp add: sound_def)
  obtain effs' where "snd (on_nfts s c' cn resp) = (effs', None)" "requests effs' = []"
    using on_nfts_ends by blast
  then show ?thesis using d by (intro sound_ended)
qed

lemma sound_deliver: "sound st c out \<Longrightarrow> sound st c (deliver rs out)"
proof -
  assume s: "sound st c out"
  obtain s0 effs p where out: "out = (s0, effs, p)" by (cases out) auto
  show ?thesis
  proof (cases p)
    case None
    then show ?thesis using s out by (simp add: deliver_None)
  next
    case (Some q)
    then show ?thesis using s out sound_on_search sound_on_contract sound_on_nfts
      by (cases q) (simp_all add: deliver_Some)
  qed
qed

lemma resume_stage:
  "resume s q rs = (s', effs', Some q') \<Longrightarrow>
     (case q of AwaitSearch _ \<Rightarrow> (\<exists>c t. q' = AwaitContract c t)
      | AwaitContract _ _ \<Rightarrow> (\<exists>c t n. q' = AwaitNFTs c t n)
      | AwaitNFTs _ _ _ \<Rightarrow> False)"
  by (cases q)
     (auto simp: on_search_def on_contract_def on_nfts_def throw_eq resolved_def Let_def
           split: fetched.splits option.splits list.splits)

lemma stage_deliver: "stage (snd (snd (deliver rs out))) \<le> stage (snd (snd out)) - 1"
proof -
  obtain s0 effs p where out: "out = (s0, effs, p)" by (cases out) auto
  show ?thesis
  proof (cases p)
    case None
    then show ?thesis using out by (simp add: deliver_None)
  next
    case (Some q)
    obtain s' effs' p' where r: "resume s0 q rs = (s', effs', p')" by (cases "resume s0 q rs") auto
    have "stage p' \<le> stage (Some q) - 1"
    proof (cases p')
      case None then show ?thesis by simp
    next
      case (Some q')
      then show ?thesis using resume_stage[of s0 q rs s' effs' q'] r
        by (cases q) auto
    qed
    then show ?thesis using out Some r by (simp add: deliver_Some)
  qed
qed

lemma searchNFTs_completes:
  "snd (snd (deliver rs (deliver rs (deliver rs (searchNFTs_begin st c))))) = None"
proof -
  have "stage (snd (snd (searchNFTs_begin st c))) \<le> 3"
    by (cases "snd (snd (searchNFTs_begin st c))" rule: stage.cases) auto
  then have "stage (snd (snd (deliver rs (deliver rs (deliver rs (searchNFTs_begin st c)))))) = 0"
    using stage_deliver[of rs "searchNFTs_begin st c"]
      stage_deliver[of rs "deliver rs (searchNFTs_begin st c)"]
      stage_deliver[of rs "deliver rs (deliver rs (searchNFTs_begin st c))"]
    by linarith
  then show ?thesis
    by (cases "snd (snd (deliver rs (deliver rs (deliver rs (searchNFTs_begin st c)))))" rule: stage.cases) auto
qed

lemma no_search_deliver: "no_search out \<Longrightarrow> no_search (deliver rs out)"
proof -
  assume a: "no_search out"
  obtain s0 effs p where out: "out = (s0, effs, p)" by (cases out) auto
  show ?thesis
  proof (cases p)
    case None
    then show ?thesis using a out by (simp add: deliver_None)
  next
    case (Some q)
    show ?thesis
    proof (cases q)
      case (AwaitSearch c)
      then show ?thesis using a out Some by (simp add: no_search_def)
    next
      case (AwaitContract c t)
      then show ?thesis using a out Some
        by (cases "contractResponse rs")
           (simp_all add: no_search_def deliver_Some on_contract_def throw_eq Let_def requests_append)
    next
      case (AwaitNFTs c t cn)
      then show ?thesis using a out Some
        by (cases "nftsResponse rs")
           (simp_all add: no_search_def deliver_Some on_nfts_def throw_eq Let_def requests_append
              split: option.split list.split)
    qed
  qed
qed

lemma searchNFTs_unfold:
  "searchNFTs st c rs =
     (fst (deliver rs (deliver rs (deliver rs (searchNFTs_begin st c)))),
      fst (snd (deliver rs (deliver rs (deliver rs (searchNFTs_begin st c))))))"
  by (simp add: searchNFTs_def split: prod.split)

lemma effects_deliver: "\<exists>effs'. fst (snd (deliver rs out)) = fst (snd out) @ effs'"
proof -
  obtain s0 effs p where out: "out = (s0, effs, p)" by (cases out) auto
  show ?thesis
  proof (cases p)
    case None then show ?thesis using out by (simp add: deliver_None)
  next
    case (Some q)
    then show ?thesis using out by (cases "resume s0 q rs") (simp add: deliver_Some)
  qed
qed

lemma effects_searchNFTs: "\<exists>effs'. snd (searchNFTs st c rs) = fst (snd (searchNFTs_begin st c)) @ effs'"
proof -
  obtain e1 where "fst (snd (deliver rs (searchNFTs_begin st c))) = fst (snd (searchNFTs_begin st c)) @ e1"
    using effects_deliver by blast
  moreover obtain e2 where "fst (snd (deliver rs (deliver rs (searchNFTs_begin st c)))) =
      fst (snd (deliver rs (searchNFTs_begin st c))) @ e2"
    using effects_deliver by blast
  moreover obtain e3 where "fst (snd (deliver rs (deliver rs (deliver rs (searchNFTs_begin st c))))) =
      fst (snd (deliver rs (deliver rs (searchNFTs_begin st c)))) @ e3"
    using effects_deliver by blast
  ultimately show ?thesis by (simp add: searchNFTs_unfold)
qed

lemma sound_searchNFTs: "distinct (map endpoint_of (requests (snd (searchNFTs st c rs))))"
proof -
  have "sound st c (deliver rs (deliver rs (deliver rs (searchNFTs_begin st c))))"
    by (intro sound_deliver sound_begin)
  then show ?thesis by (simp add: searchNFTs_unfold sound_def split: prod.splits)
qed

lemma resume_thrown:
  assumes "thrown q rs = Some err"
  shows "resume st q rs = throw st (call_of q) err"
proof (cases q)
  case (AwaitSearch c)
  then show ?thesis using assms
    by (cases "searchResponse rs") (auto simp: failure_def on_search_def)
next
  case (AwaitContract c t)
  then show ?thesis using assms
    by (cases "contractResponse rs") (auto simp: failure_def on_contract_def)
next
  case (AwaitNFTs c t cn)
  then show ?thesis using assms
    by (cases "nftsResponse rs") (auto simp: failure_def on_nfts_def)
qed

lemma sound_funpow: "sound st c ((deliver rs ^^ k) (searchNFTs_begin st c))"
  by (induction k) (simp_all add: sound_begin sound_deliver)

lemma stage_funpow: "stage (snd (snd ((deliver rs ^^ k) out))) \<le> stage (snd (snd out)) - k"
proof (induction k)
  case 0
  then show ?case by simp
next
  case (Suc k)
  have "stage (snd (snd ((deliver rs ^^ Suc k) out))) \<le> stage (snd (snd ((deliver rs ^^ k) out))) - 1"
    using stage_deliver[where rs=rs and out="(deliver rs ^^ k) out"] by simp
  then show ?case using Suc by linarith
qed

lemma stage_begin: "stage (snd (snd (searchNFTs_begin st c))) \<le> 3"
  by (cases "snd (snd (searchNFTs_begin st c))" rule: stage.cases) auto

lemma deliver_funpow_None: "(deliver rs ^^ n) (s, effs, None) = (s, effs, None)"
  by (induction n) (simp_all add: deliver_None)

lemma searchNFTs_funpow:
  "searchNFTs st c rs =
     (fst ((deliver rs ^^ 3) (searchNFTs_begin st c)), fst (snd ((deliver rs ^^ 3) (searchNFTs_begin st c))))"
  by (simp add: searchNFTs_unfold numeral_3_eq_3)

lemma call_failure:
  assumes p: "snd (snd ((deliver rs ^^ k) (searchNFTs_begin st c))) = Some q"
    and t: "thrown q rs = Some err"
  shows "searchNFTs st c rs =
           ((fst ((deliver rs ^^ k) (searchNFTs_begin st c)))
              \<lparr>error := Some (surfaced err),
               searchResults := (if resetResults c then [] else searchResults st),
               isLoading := False, isLoadingMore := False\<rparr>,
            fst (snd ((deliver rs ^^ k) (searchNFTs_begin st c))) @ [ConsoleError err])"
    and "hasMore (fst ((deliver rs ^^ k) (searchNFTs_begin st c))) = (if resetResults c then True else hasMore st)"
proof -
  obtain s effs where o: "(deliver rs ^^ k) (searchNFTs_begin st c) = (s, effs, Some q)"
    using p by (cases "(deliver rs ^^ k) (searchNFTs_begin st c)") auto
  have "sound st c (s, effs, Some q)" using sound_funpow[where st=st and c=c and rs=rs and k=k] o by simp
  then have c: "call_of q = c" and k: "kept st c s" by (simp_all add: sound_def)
  have "stage (Some q) \<le> 3 - k"
    using stage_funpow[where rs=rs and k=k and out="searchNFTs_begin st c"] stage_begin[of st c] o by simp
  moreover have "0 < stage (Some q)" by (cases q) auto
  ultimately have "k < 3" by linarith
  then obtain n where n: "3 = n + Suc k" by (metis add.commute less_iff_Suc_add add_Suc_right)
  have d: "deliver rs (s, effs, Some q) =
      (s\<lparr>error := Some (surfaced err), searchResults := (if resetResults c then [] else searchResults s),
         isLoading := False, isLoadingMore := False\<rparr>, effs @ [ConsoleError err], None)"
    using resume_thrown[OF t, of s] c by (simp add: deliver_Some throw_eq)
  have "(deliver rs ^^ 3) (searchNFTs_begin st c) =
      (deliver rs ^^ n) (deliver rs ((deliver rs ^^ k) (searchNFTs_begin st c)))"
    unfolding n by (simp add: funpow_add funpow_swap1)
  then have "(deliver rs ^^ 3) (searchNFTs_begin st c) =
      (s\<lparr>error := Some (surfaced err), searchResults := (if resetResults c then [] else searchResults s),
         isLoading := False, isLoadingMore := False\<rparr>, effs @ [ConsoleError err], None)"
    by (simp add: o d deliver_funpow_None)
  moreover have "(if resetResults c then [] else searchResults s) = (if resetResults c then [] else searchResults st)"
    using k by (simp add: kept_def)
  ultimately show "searchNFTs st c rs =
           ((fst ((deliver rs ^^ k) (searchNFTs_begin st c)))
              \<lparr>error := Some (surfaced err),
               searchResults := (if resetResults c then [] else searchResults st),
               isLoading := False, isLoadingMore := False\<rparr>,
            fst (snd ((deliver rs ^^ k) (searchNFTs_begin st c))) @ [ConsoleError err])"
    by (simp add: searchNFTs_funpow o)
  show "hasMore (fst ((deliver rs ^^ k) (searchNFTs_begin st c))) = (if resetResults c then True else hasMore st)"
    using k by (simp add: o kept_def)
qed

lemma step_failure:
  assumes "i < length (inflight sys)" and "thrown (inflight sys ! i) rs = Some err"
  shows "step sys (Response i rs) =
           \<lparr>ui = (ui sys)\<lparr>error := Some (surfaced err),
                          searchResults := (if resetResults (call_of (inflight sys ! i)) then []
                                            else searchResults (ui sys)),
                          isLoading := False, isLoadingMore := False\<rparr>,
            inflight = take i (inflight sys) @ drop (Suc i) (inflight sys),
            effects = effects sys @ [ConsoleError err]\<rparr>"
  using assms(1) resume_thrown[OF assms(2), of "ui sys"]
  by (simp add: throw_eq suspended_def)

text \<open>
  An item without \<open>contract\<close> in the page of a continuation: the call goes through its
  \<open>catch\<close> block after \<open>hasMore\<close> and the cursor have been set from the body.
\<close>

lemma unreadable_item_after_cursor:
  "hasMore after_small_page \<and> pageKey after_small_page = Some ''k1'' \<and>
   \<not> hasMore (fst (searchNFTs after_small_page azuki_more broken_listing)) \<and>
   pageKey (fst (searchNFTs after_small_page azuki_more broken_listing)) = None \<and>
   searchResults (fst (searchNFTs after_small_page azuki_more broken_listing)) = searchResults after_small_page \<and>
   error (fst (searchNFTs after_small_page azuki_more broken_listing)) = Some ''Cannot read properties of undefined'' \<and>
   thrown (AwaitNFTs azuki_more azuki ''Azuki'') broken_listing = None"
  by code_simp

subsection \<open>The event loop\<close>

lemma begin_flags:
  "searchNFTs_begin st c = (st', effs, Some p) \<Longrightarrow> isLoading st' \<or> isLoadingMore st'"
  by (auto simp: searchNFTs_begin_def resolved_def Let_def split: if_splits)

lemma resume_flags:
  "resume st q rs = (st', effs, Some p) \<Longrightarrow>
     isLoading st' = isLoading st \<and> isLoadingMore st' = isLoadingMore st"
  by (cases q)
     (auto simp: on_search_def on_contract_def on_nfts_def throw_eq resolved_def Let_def
           split: fetched.splits option.splits list.splits if_splits)

lemma launch_idle:
  assumes "inflight sys = []" and "out = searchNFTs_begin st c"
  shows "one_at_a_time (launch sys out)"
proof -
  obtain st' effs p where o: "searchNFTs_begin st c = (st', effs, p)"
    by (cases "searchNFTs_begin st c") auto
  show ?thesis
  proof (cases p)
    case None
    then show ?thesis using assms o by (simp add: one_at_a_time_def launch_def suspended_def)
  next
    case (Some q)
    then show ?thesis using assms o begin_flags[of st c st' effs q]
      by (simp add: one_at_a_time_def launch_def suspended_def)
  qed
qed

lemma launch_nothing: "launch sys (ui sys, [], None) = sys"
  by (simp add: launch_def suspended_def)

lemma observer_guard:
  "isLoading st \<or> isLoadingMore st \<or> \<not> hasMore st \<Longrightarrow> observerCallback st b pk = (st, [], None)"
  by (auto simp: observerCallback_def)

lemma one_at_a_time_step:
  assumes inv: "one_at_a_time sys"
    and quiet: "case ev of Search _ _ _ \<Rightarrow> inflight sys = [] | _ \<Rightarrow> True"
  shows "one_at_a_time (step sys ev)"
proof (cases ev)
  case (Search q ca pk)
  then show ?thesis using quiet by (simp add: launch_idle)
next
  case (Intersect b pk)
  show ?thesis
  proof (cases "isLoading (ui sys) \<or> isLoadingMore (ui sys) \<or> \<not> hasMore (ui sys)")
    case True
    then show ?thesis using inv Intersect by (simp add: observer_guard launch_nothing)
  next
    case False
    then have idle: "inflight sys = []" using inv by (auto simp: one_at_a_time_def)
    show ?thesis
    proof (cases "b \<and> truthy (currentContractAddress (ui sys))")
      case True
      then show ?thesis using False Intersect idle
        by (simp add: observerCallback_def loadMore_def launch_idle)
    next
      case False
      then have "observerCallback (ui sys) b pk = (ui sys, [], None)"
        by (auto simp: observerCallback_def loadMore_def)
      then show ?thesis using inv Intersect by (simp add: launch_nothing)
    qed
  qed
next
  case (Response i rs)
  show ?thesis
  proof (cases "i < length (inflight sys)")
    case False
    then show ?thesis using inv Response by simp
  next
    case True
    then obtain q where q: "inflight sys = [q]" and i: "i = 0"
      using inv by (cases "inflight sys") (auto simp: one_at_a_time_def)
    obtain st' effs p where r: "resume (ui sys) q rs = (st', effs, p)"
      by (cases "resume (ui sys) q rs") auto
    show ?thesis
    proof (cases p)
      case None
      then show ?thesis using Response q i r by (simp add: one_at_a_time_def suspended_def)
    next
      case (Some q')
      then show ?thesis using Response q i r inv resume_flags[of "ui sys" q rs st' effs q']
        by (simp add: one_at_a_time_def suspended_def)
    qed
  qed
qed

lemma run_Cons: "run sys (ev # evs) = run (step sys ev) evs"
  by (simp add: run_def)

lemma one_at_a_time_run:
  "one_at_a_time sys \<Longrightarrow> calm sys evs \<Longrightarrow> one_at_a_time (run sys evs)"
proof (induction evs arbitrary: sys)
  case Nil
  then show ?case by (simp add: run_def)
next
  case (Cons ev evs)
  then show ?case by (simp add: run_Cons one_at_a_time_step)
qed

lemma merged_begin:
  "merged (searchResults st) \<Longrightarrow> merged (searchResults (fst (searchNFTs_begin st c)))"
  by (auto simp: searchNFTs_begin_def resolved_def Let_def merged_def)

lemma merged_observer:
  "merged (searchResults st) \<Longrightarrow> merged (searchResults (fst (observerCallback st b pk)))"
  by (simp add: observerCallback_def loadMore_def merged_begin)

lemma merged_throw:
  "merged (searchResults st) \<Longrightarrow> merged (searchResults (fst (throw st c err)))"
  by (simp add: throw_eq merged_def)

lemma merged_resume:
  assumes "merged (searchResults st)"
  shows "merged (searchResults (fst (resume st q rs)))"
proof (cases q)
  case (AwaitSearch c)
  then show ?thesis using assms merged_throw[OF assms]
    by (auto simp: on_search_def resolved_def finally_block_def merged_def
        split: fetched.splits option.splits list.splits)
next
  case (AwaitContract c t)
  then show ?thesis using assms merged_throw[OF assms]
    by (auto simp: on_contract_def Let_def split: fetched.splits)
next
  case (AwaitNFTs c t cn)
  show ?thesis
  proof (cases "nftsResponse rs")
    case (Rejected e)
    then show ?thesis using AwaitNFTs merged_throw[OF assms] by (simp add: on_nfts_def)
  next
    case NotOk
    then show ?thesis using AwaitNFTs merged_throw[OF assms] by (simp add: on_nfts_def)
  next
    case (Resolved nd)
    show ?thesis
    proof (cases "\<exists>n ns. nfts nd = Some (n # ns)")
      case True
      then obtain n ns where "nfts nd = Some (n # ns)" by blast
      then show ?thesis using AwaitNFTs Resolved on_nfts_merge[of nd n ns st c cn]
        by (auto simp: merged_def)
    next
      case False
      then show ?thesis using AwaitNFTs Resolved assms
        by (auto simp: on_nfts_def Let_def finally_block_def merged_def split: option.splits list.splits)
    qed
  next
    case (Unreadable nd e)
    then show ?thesis using AwaitNFTs assms
      by (auto simp: on_nfts_def throw_eq Let_def finally_block_def merged_def
          split: option.splits list.splits)
  qed
qed

lemma ui_launch: "ui (launch sys out) = fst out"
  by (cases out) (simp add: launch_def)

lemma ui_response:
  "ui (step sys (Response i rs)) =
     (if i < length (inflight sys) then fst (resume (ui sys) (inflight sys ! i) rs) else ui sys)"
  by (simp split: prod.splits)

lemma merged_step:
  assumes "merged (searchResults (ui sys))"
  shows "merged (searchResults (ui (step sys ev)))"
proof (cases ev)
  case (Search q ca pk)
  then show ?thesis using merged_begin[OF assms] by (simp add: ui_launch)
next
  case (Intersect b pk)
  then show ?thesis using merged_observer[OF assms] by (simp add: ui_launch)
next
  case (Response i rs)
  then show ?thesis using assms merged_resume[OF assms, of "inflight sys ! i" rs]
    by (simp only: ui_response split: if_splits) simp
qed

lemma merged_run:
  "merged (searchResults (ui sys)) \<Longrightarrow> merged (searchResults (ui (run sys evs)))"
  by (induction evs arbitrary: sys) (simp_all add: run_def merged_step)

lemma merged_reachable: "merged (searchResults (ui (run initial_system evs)))"
  by (rule merged_run) (simp add: merged_def initial_system_def initial_state_def)

lemma merged_properties:
  assumes "merged xs"
  shows "distinct (map tokenId xs) \<and>
         ((\<forall>x \<in> set xs. exact_tokenId (tokenId x)) \<longrightarrow> ascending_tokenIds xs) \<and>
         ((\<forall>x \<in> set xs. parseInt (tokenId x) \<noteq> NaN) \<longrightarrow>
            sorted_wrt (\<lambda>a b. number_le (parseInt (tokenId a)) (parseInt (tokenId b))) xs)"
proof (cases "xs = []")
  case True
  then show ?thesis by (simp add: ascending_tokenIds_def)
next
  case False
  then obtain r prev page where "xs = mergeResults r prev page"
    using assms by (auto simp: merged_def)
  then show ?thesis
    using distinct_mergeResults mergeResults_ascending mergeResults_sorted_parse by blast
qed

lemma merged_on_nfts:
  "nfts nd = Some (n # ns) \<Longrightarrow> merged (searchResults (fst (on_nfts st c cn (Resolved nd))))"
  by (auto simp: on_nfts_merge merged_def)

section \<open>The claims\<close>

subsection \<open>Merged pages\<close>

text \<open>
  Claim C1, as amended. After a listing response with at least one item has been merged
  into any state, and in every state that a run of the event loop reaches from the
  initial one, no two items of the accumulation share a \<open>tokenId\<close>. If every token id in
  it is exact, the items are in non-decreasing numeric order of token id; if every token
  id parses at all, they are in non-decreasing order of the Numbers \<open>parseInt\<close> gives.
\<close>

theorem accumulation_distinct_and_sorted:
  assumes "nfts nd = Some (n # ns)"
  shows "distinct (map tokenId (searchResults (fst (on_nfts st c cn (Resolved nd))))) \<and>
         ((\<forall>x \<in> set (searchResults (fst (on_nfts st c cn (Resolved nd)))). exact_tokenId (tokenId x)) \<longrightarrow>
            ascending_tokenIds (searchResults (fst (on_nfts st c cn (Resolved nd))))) \<and>
         ((\<forall>x \<in> set (searchResults (fst (on_nfts st c cn (Resolved nd)))). parseInt (tokenId x) \<noteq> NaN) \<longrightarrow>
            sorted_wrt (\<lambda>a b. number_le (parseInt (tokenId a)) (parseInt (tokenId b)))
              (searchResults (fst (on_nfts st c cn (Resolved nd))))) \<and>
         distinct (map tokenId (searchResults (ui (run initial_system evs)))) \<and>
         ((\<forall>x \<in> set (searchResults (ui (run initial_system evs))). exact_tokenId (tokenId x)) \<longrightarrow>
            ascending_tokenIds (searchResults (ui (run initial_system evs)))) \<and>
         ((\<forall>x \<in> set (searchResults (ui (run initial_system evs))). parseInt (tokenId x) \<noteq> NaN) \<longrightarrow>
            sorted_wrt (\<lambda>a b. number_le (parseInt (tokenId a)) (parseInt (tokenId b)))
              (searchResults (ui (run initial_system evs))))"
  using merged_properties[OF merged_on_nfts[OF assms, of st c cn]]
    merged_properties[OF merged_reachable[of evs]]
  by blast

text \<open>
  The page \<open>10, 9, 10\<close> merged into the initial state gives \<open>9, 10\<close>, and so does the run
  in which a popular collection is picked and answered with that page.
\<close>

theorem accumulation_distinct_and_sorted_witness:
  "map tokenId (searchResults (fst (on_nfts initial_state azuki_pick ''Azuki'' (Resolved small_page)))) = [''9'', ''10''] \<and>
   ascending_tokenIds (searchResults (fst (on_nfts initial_state azuki_pick ''Azuki'' (Resolved small_page)))) \<and>
   sorted_wrt (\<lambda>a b. number_le (parseInt (tokenId a)) (parseInt (tokenId b)))
     (searchResults (fst (on_nfts initial_state azuki_pick ''Azuki'' (Resolved small_page)))) \<and>
   map tokenId (searchResults (ui (run initial_system
       [Search ''Azuki'' (Some azuki) None, Response 0 small_listing, Response 0 small_listing]))) = [''9'', ''10''] \<and>
   distinct (map tokenId (searchResults (ui (run initial_system
       [Search ''Azuki'' (Some azuki) None, Response 0 small_listing, Response 0 small_listing])))) \<and>
   ascending_tokenIds (searchResults (ui (run initial_system
       [Search ''Azuki'' (Some azuki) None, Response 0 small_listing, Response 0 small_listing]))) \<and>
   sorted_wrt (\<lambda>a b. number_le (parseInt (tokenId a)) (parseInt (tokenId b)))
     (searchResults (ui (run initial_system
       [Search ''Azuki'' (Some azuki) None, Response 0 small_listing, Response 0 small_listing])))"
proof -
  have p: "nfts small_page = Some (token ''10'' None # [token ''9'' None, token ''10'' (Some ''again'')])"
    by (simp add: small_page_def)
  have ids: "map tokenId (searchResults (fst (on_nfts initial_state azuki_pick ''Azuki'' (Resolved small_page)))) = [''9'', ''10'']"
    by code_simp
  have ex: "\<forall>x \<in> set (searchResults (fst (on_nfts initial_state azuki_pick ''Azuki'' (Resolved small_page)))). exact_tokenId (tokenId x)"
    by code_simp
  have nn: "\<forall>x \<in> set (searchResults (fst (on_nfts initial_state azuki_pick ''Azuki'' (Resolved small_page)))). parseInt (tokenId x) \<noteq> NaN"
    by code_simp
  have ids': "map tokenId (searchResults (ui (run initial_system
       [Search ''Azuki'' (Some azuki) None, Response 0 small_listing, Response 0 small_listing]))) = [''9'', ''10'']"
    by code_simp
  have ex': "\<forall>x \<in> set (searchResults (ui (run initial_system
       [Search ''Azuki'' (Some azuki) None, Response 0 small_listing, Response 0 small_listing]))). exact_tokenId (tokenId x)"
    by code_simp
  have nn': "\<forall>x \<in> set (searchResults (ui (run initial_system
       [Search ''Azuki'' (Some azuki) None, Response 0 small_listing, Response 0 small_listing]))). parseInt (tokenId x) \<noteq> NaN"
    by code_simp
  show ?thesis
    using accumulation_distinct_and_sorted[OF p, of initial_state azuki_pick "''Azuki''"
        "[Search ''Azuki'' (Some azuki) None, Response 0 small_listing, Response 0 small_listing]"]
      ids ex nn ids' ex' nn'
    by blast
qed

text \<open>
  Two token ids above \<open>2 ^ 53\<close> that round to the same double compare as equal, so the
  stable sort leaves the larger one first.
\<close>

theorem large_tokenIds_out_of_order:
  "map tokenId (searchResults (fst (on_nfts initial_state azuki_pick ''Azuki'' (Resolved large_page))))
     = [''9007199254740993'', ''9007199254740992''] \<and>
   \<not> ascending_tokenIds (searchResults (fst (on_nfts initial_state azuki_pick ''Azuki'' (Resolved large_page))))"
  by code_simp

text \<open>
  Claim C2. When a page is merged as a continuation after another page, every item the
  accumulation held after the first page is still in it, and it is the only item with
  its \<open>tokenId\<close>: a record the second page sends for that token id is discarded.
\<close>

theorem first_occurrence_wins:
  assumes p1: "nfts page1 = Some (a # as)" and p2: "nfts page2 = Some (b # bs)"
    and cont: "\<not> resetResults c2"
    and st1: "st1 = fst (on_nfts st c1 cn1 (Resolved page1))"
    and st2: "st2 = fst (on_nfts st1 c2 cn2 (Resolved page2))"
    and x: "x \<in> set (searchResults st1)"
  shows "x \<in> set (searchResults st2) \<and>
         (\<forall>z \<in> set (searchResults st2). tokenId z = tokenId x \<longrightarrow> z = x)"
proof -
  have d1: "distinct (map tokenId (searchResults st1))"
    unfolding st1 on_nfts_merge[OF p1] by (rule distinct_mergeResults)
  have r2: "searchResults st2 = mergeResults False (searchResults st1) (map (formatNFT cn2) (b # bs))"
    unfolding st2 on_nfts_merge[OF p2] using cont by simp
  have "set (searchResults st2) =
        set (searchResults st1) \<union> set (filter_unseen (tokenId ` set (searchResults st1)) (map (formatNFT cn2) (b # bs)))"
    unfolding r2 mergeResults_continue[OF d1] by (simp add: set_sort_by)
  then have inx: "x \<in> set (searchResults st2)" using x by simp
  have d2: "distinct (map tokenId (searchResults st2))" unfolding r2 by (rule distinct_mergeResults)
  then have "inj_on tokenId (set (searchResults st2))" by (simp add: distinct_map)
  then show ?thesis using inx by (auto dest: inj_onD)
qed

text \<open>
  Token 9 of the first page stays; the record titled \<open>resent\<close> that the second page
  sends for token 9 is not in the accumulation.
\<close>

theorem first_occurrence_wins_witness:
  "formatNFT ''Azuki'' (token ''9'' None) \<in> set (searchResults after_small_page) \<and>
   formatNFT ''Azuki'' (token ''9'' None)
     \<in> set (searchResults (fst (on_nfts after_small_page azuki_more ''Azuki'' (Resolved resent_page)))) \<and>
   formatNFT ''Azuki'' (token ''9'' (Some ''resent''))
     \<notin> set (searchResults (fst (on_nfts after_small_page azuki_more ''Azuki'' (Resolved resent_page))))"
proof -
  have p1: "nfts small_page = Some (token ''10'' None # [token ''9'' None, token ''10'' (Some ''again'')])"
    by (simp add: small_page_def)
  have p2: "nfts resent_page = Some (token ''9'' (Some ''resent'') # [token ''11'' None])"
    by (simp add: resent_page_def)
  have cont: "\<not> resetResults azuki_more" by (simp add: azuki_more_def)
  have x: "formatNFT ''Azuki'' (token ''9'' None) \<in> set (searchResults after_small_page)"
    by code_simp
  have ne: "formatNFT ''Azuki'' (token ''9'' (Some ''resent'')) \<noteq> formatNFT ''Azuki'' (token ''9'' None)"
    by code_simp
  have same: "tokenId (formatNFT ''Azuki'' (token ''9'' (Some ''resent''))) = tokenId (formatNFT ''Azuki'' (token ''9'' None))"
    by (simp add: formatNFT_def token_def)
  show ?thesis
    using first_occurrence_wins[OF p1 p2 cont after_small_page_def refl x, of "''Azuki''"] x ne same
    by blast
qed

subsection \<open>Resolving the query\<close>

text \<open>
  Claim C3, as amended. For a call with a non-empty query and no contract address: if the
  query is \<open>0x\<close> or \<open>0X\<close> followed by exactly 40 hexadecimal characters, it is the resolved
  address (the first request is the contract metadata request for it, it becomes the
  current contract address) and the call issues no name-search request; otherwise the
  first request is the name search for the query and the current contract address is
  not changed yet. The two cases exclude each other.
\<close>

theorem address_or_name:
  assumes "\<not> truthy (contractAddress c)" and "query c \<noteq> []"
  shows "(isAddress (query c) \<longrightarrow>
            snd (searchNFTs_begin st c) =
              ([Fetch (GetContractMetadata (query c))], Some (AwaitContract c (query c))) \<and>
            currentContractAddress (fst (searchNFTs_begin st c)) = Some (query c) \<and>
            SearchEndpoint \<notin> set (map endpoint_of (requests (snd (searchNFTs st c rs))))) \<and>
         (\<not> isAddress (query c) \<longrightarrow>
            snd (searchNFTs_begin st c) =
              ([Fetch (SearchContractMetadata (query c) 1 1)], Some (AwaitSearch c)) \<and>
            currentContractAddress (fst (searchNFTs_begin st c)) = currentContractAddress st)"
proof (intro conjI impI)
  assume a: "isAddress (query c)"
  show b: "snd (searchNFTs_begin st c) = ([Fetch (GetContractMetadata (query c))], Some (AwaitContract c (query c)))"
    using assms a by (simp add: searchNFTs_begin_def resolved_def Let_def)
  show "currentContractAddress (fst (searchNFTs_begin st c)) = Some (query c)"
    using assms a by (simp add: searchNFTs_begin_def resolved_def Let_def)
  have "no_search (searchNFTs_begin st c)"
    using b by (cases "searchNFTs_begin st c") (simp add: no_search_def)
  then have "no_search (deliver rs (deliver rs (deliver rs (searchNFTs_begin st c))))"
    by (intro no_search_deliver)
  then show "SearchEndpoint \<notin> set (map endpoint_of (requests (snd (searchNFTs st c rs))))"
    by (simp add: searchNFTs_unfold no_search_def split: prod.splits)
next
  assume a: "\<not> isAddress (query c)"
  show "snd (searchNFTs_begin st c) = ([Fetch (SearchContractMetadata (query c) 1 1)], Some (AwaitSearch c))"
    using assms a by (simp add: searchNFTs_begin_def Let_def)
  show "currentContractAddress (fst (searchNFTs_begin st c)) = currentContractAddress st"
    using assms a by (simp add: searchNFTs_begin_def Let_def)
qed

text \<open>A typed address goes to the contract metadata request, a typed name to the name search.\<close>

theorem address_or_name_witness:
  "isAddress azuki \<and>
   snd (searchNFTs_begin initial_state (typed azuki)) =
     ([Fetch (GetContractMetadata azuki)], Some (AwaitContract (typed azuki) azuki)) \<and>
   currentContractAddress (fst (searchNFTs_begin initial_state (typed azuki))) = Some azuki \<and>
   SearchEndpoint \<notin> set (map endpoint_of (requests (snd (searchNFTs initial_state (typed azuki) (listing azuki ''1'' None))))) \<and>
   \<not> isAddress ''Azuki'' \<and>
   snd (searchNFTs_begin initial_state (typed ''Azuki'')) =
     ([Fetch (SearchContractMetadata ''Azuki'' 1 1)], Some (AwaitSearch (typed ''Azuki'')))"
proof -
  have a: "isAddress (query (typed azuki))"
    by (simp add: typed_def azuki_def isAddress_def isHexChar_def)
  have n: "\<not> isAddress (query (typed ''Azuki''))"
    by (simp add: typed_def isAddress_def)
  have h1: "\<not> truthy (contractAddress (typed azuki))" "query (typed azuki) \<noteq> []"
    by (simp_all add: typed_def truthy_def azuki_def)
  have h2: "\<not> truthy (contractAddress (typed ''Azuki''))" "query (typed ''Azuki'') \<noteq> []"
    by (simp_all add: typed_def truthy_def)
  have q: "query (typed azuki) = azuki" "query (typed ''Azuki'') = ''Azuki''"
    by (simp_all add: typed_def)
  show ?thesis
    using address_or_name[OF h1, of initial_state "listing azuki ''1'' None"]
      address_or_name[OF h2, of initial_state "listing azuki ''1'' None"] a n
    unfolding q by blast
qed

text \<open>
  Forty hexadecimal characters without \<open>0x\<close> fit the pattern as the specification words
  it, and the call sends them to the name search.
\<close>

theorem bare_hex_is_searched_by_name:
  "spec_address_pattern bare_hex \<and>
   snd (searchNFTs_begin initial_state (typed bare_hex)) =
     ([Fetch (SearchContractMetadata bare_hex 1 1)], Some (AwaitSearch (typed bare_hex)))"
  by (simp add: spec_address_pattern_def bare_hex_def isHexChar_def searchNFTs_begin_def truthy_def
      isAddress_def typed_def Let_def)

text \<open>
  Claim C8, as amended. A call with a non-empty query that is not an address, and no
  contract address, issues exactly one name-search request, for the query with page 1
  and page size 1. If the answer has no match, the error is \<open>Collection not found\<close>, the
  accumulation is empty and nothing else is requested. If it has a match and the contract
  metadata request succeeds, the first match's address is the resolved address of both
  later requests, and the display name is the name in the contract metadata or, when
  that is missing or empty, the query; the name of the match is not used.
\<close>

theorem name_resolution:
  assumes "\<not> truthy (contractAddress c)" and "\<not> isAddress (query c)" and "query c \<noteq> []"
  shows "filter (\<lambda>r. endpoint_of r = SearchEndpoint) (requests (snd (searchNFTs st c rs))) =
           [SearchContractMetadata (query c) 1 1] \<and>
         (\<forall>sd. searchResponse rs = Resolved sd \<and> (contracts sd = None \<or> contracts sd = Some []) \<longrightarrow>
            error (fst (searchNFTs st c rs)) = Some ''Collection not found'' \<and>
            searchResults (fst (searchNFTs st c rs)) = [] \<and>
            snd (searchNFTs st c rs) = [Fetch (SearchContractMetadata (query c) 1 1)]) \<and>
         (\<forall>sd m ms cd. searchResponse rs = Resolved sd \<and> contracts sd = Some (m # ms) \<and>
              contractResponse rs = Resolved cd \<longrightarrow>
            snd (deliver rs (deliver rs (searchNFTs_begin st c))) =
              ([Fetch (SearchContractMetadata (query c) 1 1),
                Fetch (GetContractMetadata (match_address m)),
                Fetch (GetNFTsForCollection (match_address m) 100
                  (if truthy (closure_pageKey c) then closure_pageKey c else None))],
               Some (AwaitNFTs c (match_address m) (or_else (contractMetadata_name cd) (query c)))))"
proof (intro conjI allI impI)
  have b: "searchNFTs_begin st c =
      ((if resetResults c
        then st\<lparr>isLoading := True, searchResults := [], pageKey := None, hasMore := True\<rparr>
        else st\<lparr>isLoadingMore := True\<rparr>)\<lparr>error := None, showSuggestions := False\<rparr>,
       [Fetch (SearchContractMetadata (query c) 1 1)], Some (AwaitSearch c))"
    using assms by (simp add: searchNFTs_begin_def Let_def)
  obtain effs' where e: "snd (searchNFTs st c rs) = Fetch (SearchContractMetadata (query c) 1 1) # effs'"
    using effects_searchNFTs[of st c rs] b by auto
  have "distinct (map endpoint_of (requests (snd (searchNFTs st c rs))))" by (rule sound_searchNFTs)
  then have "SearchEndpoint \<notin> set (map endpoint_of (requests effs'))" by (simp add: e)
  then have "filter (\<lambda>r. endpoint_of r = SearchEndpoint) (requests effs') = []"
    by (force simp: filter_empty_conv)
  then show "filter (\<lambda>r. endpoint_of r = SearchEndpoint) (requests (snd (searchNFTs st c rs))) =
           [SearchContractMetadata (query c) 1 1]" by (simp add: e)
  {
    fix sd assume h: "searchResponse rs = Resolved sd \<and> (contracts sd = None \<or> contracts sd = Some [])"
    then have "deliver rs (searchNFTs_begin st c) =
       (finally_block ((fst (searchNFTs_begin st c))\<lparr>error := Some ''Collection not found'', searchResults := []\<rparr>),
        [Fetch (SearchContractMetadata (query c) 1 1)], None)"
      by (auto simp: b deliver_Some on_search_def)
    then have r: "searchNFTs st c rs =
       (finally_block ((fst (searchNFTs_begin st c))\<lparr>error := Some ''Collection not found'', searchResults := []\<rparr>),
        [Fetch (SearchContractMetadata (query c) 1 1)])"
      by (simp add: searchNFTs_def deliver_None)
    show "error (fst (searchNFTs st c rs)) = Some ''Collection not found''"
      by (simp add: r finally_block_def)
    show "searchResults (fst (searchNFTs st c rs)) = []"
      by (simp add: r finally_block_def)
    show "snd (searchNFTs st c rs) = [Fetch (SearchContractMetadata (query c) 1 1)]"
      by (simp add: r)
  }
  {
    fix sd m ms cd
    assume h: "searchResponse rs = Resolved sd \<and> contracts sd = Some (m # ms) \<and> contractResponse rs = Resolved cd"
    then show "snd (deliver rs (deliver rs (searchNFTs_begin st c))) =
              ([Fetch (SearchContractMetadata (query c) 1 1),
                Fetch (GetContractMetadata (match_address m)),
                Fetch (GetNFTsForCollection (match_address m) 100
                  (if truthy (closure_pageKey c) then closure_pageKey c else None))],
               Some (AwaitNFTs c (match_address m) (or_else (contractMetadata_name cd) (query c))))"
      by (simp add: b deliver_Some on_search_def resolved_def on_contract_def Let_def)
  }
qed

text \<open>
  The query \<open>Azuki\<close> with no match, and with one match whose contract metadata answers.
\<close>

theorem name_resolution_witness:
  "filter (\<lambda>r. endpoint_of r = SearchEndpoint) (requests (snd (searchNFTs initial_state (typed ''Azuki'') one_match))) =
     [SearchContractMetadata ''Azuki'' 1 1] \<and>
   error (fst (searchNFTs initial_state (typed ''Azuki'') no_match)) = Some ''Collection not found'' \<and>
   searchResults (fst (searchNFTs initial_state (typed ''Azuki'') no_match)) = [] \<and>
   snd (searchNFTs initial_state (typed ''Azuki'') no_match) = [Fetch (SearchContractMetadata ''Azuki'' 1 1)] \<and>
   snd (deliver one_match (deliver one_match (searchNFTs_begin initial_state (typed ''Azuki'')))) =
     ([Fetch (SearchContractMetadata ''Azuki'' 1 1), Fetch (GetContractMetadata azuki),
       Fetch (GetNFTsForCollection azuki 100 None)],
      Some (AwaitNFTs (typed ''Azuki'') azuki ''Azuki''))"
proof -
  have h: "\<not> truthy (contractAddress (typed ''Azuki''))" "\<not> isAddress (query (typed ''Azuki''))"
      "query (typed ''Azuki'') \<noteq> []"
    by (simp_all add: typed_def truthy_def isAddress_def)
  have q: "query (typed ''Azuki'') = ''Azuki''" "closure_pageKey (typed ''Azuki'') = None"
    by (simp_all add: typed_def)
  have nf: "searchResponse no_match = Resolved \<lparr>contracts = Some []\<rparr> \<and>
            (contracts \<lparr>contracts = Some []\<rparr> = None \<or> contracts \<lparr>contracts = Some []\<rparr> = Some [])"
    by (simp add: no_match_def)
  have om: "searchResponse one_match =
              Resolved \<lparr>contracts = Some [\<lparr>match_address = azuki, match_name = Some ''Azuki Official''\<rparr>]\<rparr> \<and>
            contracts \<lparr>contracts = Some [\<lparr>match_address = azuki, match_name = Some ''Azuki Official''\<rparr>]\<rparr> =
              Some (\<lparr>match_address = azuki, match_name = Some ''Azuki Official''\<rparr> # []) \<and>
            contractResponse one_match = Resolved \<lparr>contractMetadata_name = Some ''Azuki''\<rparr>"
    by (simp add: one_match_def)
  note t1 = name_resolution[OF h, of initial_state one_match]
  note t2 = name_resolution[OF h, of initial_state no_match]
  have a: "filter (\<lambda>r. endpoint_of r = SearchEndpoint) (requests (snd (searchNFTs initial_state (typed ''Azuki'') one_match))) =
     [SearchContractMetadata ''Azuki'' 1 1]"
    using t1 unfolding q by blast
  have b: "error (fst (searchNFTs initial_state (typed ''Azuki'') no_match)) = Some ''Collection not found'' \<and>
      searchResults (fst (searchNFTs initial_state (typed ''Azuki'') no_match)) = [] \<and>
      snd (searchNFTs initial_state (typed ''Azuki'') no_match) = [Fetch (SearchContractMetadata ''Azuki'' 1 1)]"
    using t2 nf unfolding q by blast
  have "snd (deliver one_match (deliver one_match (searchNFTs_begin initial_state (typed ''Azuki'')))) =
     ([Fetch (SearchContractMetadata ''Azuki'' 1 1),
       Fetch (GetContractMetadata (match_address \<lparr>match_address = azuki, match_name = Some ''Azuki Official''\<rparr>)),
       Fetch (GetNFTsForCollection (match_address \<lparr>match_address = azuki, match_name = Some ''Azuki Official''\<rparr>) 100
          (if truthy None then None else None))],
      Some (AwaitNFTs (typed ''Azuki'') (match_address \<lparr>match_address = azuki, match_name = Some ''Azuki Official''\<rparr>)
          (or_else (contractMetadata_name \<lparr>contractMetadata_name = Some ''Azuki''\<rparr>) ''Azuki'')))"
    using t1 om unfolding q by blast
  then have c: "snd (deliver one_match (deliver one_match (searchNFTs_begin initial_state (typed ''Azuki'')))) =
     ([Fetch (SearchContractMetadata ''Azuki'' 1 1), Fetch (GetContractMetadata azuki),
       Fetch (GetNFTsForCollection azuki 100 None)],
      Some (AwaitNFTs (typed ''Azuki'') azuki ''Azuki''))"
    by (simp add: or_else_def)
  show ?thesis using a b c by blast
qed

text \<open>
  The first match is named \<open>Azuki Official\<close>; the items carry the name \<open>Azuki\<close> of the
  contract metadata.
\<close>

theorem display_name_is_not_the_match_name:
  "map match_name (the (contracts (case searchResponse one_match of Resolved sd \<Rightarrow> sd))) = [Some ''Azuki Official''] \<and>
   map (\<lambda>x. name (contract x)) (searchResults (fst (searchNFTs initial_state (typed ''Azuki'') one_match))) = [''Azuki'']"
  by code_simp

subsection \<open>Failures and empty answers\<close>

text \<open>
  Claim C4. A suspended call awaits a request, and that request fails by a network error
  or a response that is not \<open>ok\<close>. In the event loop, whatever the state and whatever
  else is suspended: the error becomes the thrown message (or the fixed text for a value
  that is no \<open>Error\<close>), a first-page call empties the accumulation, a continuation leaves
  it as it is, \<open>hasMore\<close> and the cursor are not touched, both loading flags are cleared,
  the call is no longer suspended and nothing is requested. For a call run on its own
  from a state \<open>st\<close>: it ends with that failure as its last effect, having requested no
  endpoint twice; a first page ends with an empty accumulation, a continuation with the
  accumulation and the \<open>hasMore\<close> of \<open>st\<close>.
\<close>

theorem failed_fetch:
  assumes "thrown q rs = Some err"
  shows "(i < length (inflight sys) \<and> inflight sys ! i = q \<longrightarrow>
            step sys (Response i rs) =
              \<lparr>ui = (ui sys)\<lparr>error := Some (surfaced err),
                             searchResults := (if resetResults (call_of q) then [] else searchResults (ui sys)),
                             isLoading := False, isLoadingMore := False\<rparr>,
               inflight = take i (inflight sys) @ drop (Suc i) (inflight sys),
               effects = effects sys @ [ConsoleError err]\<rparr>) \<and>
         (snd (snd ((deliver rs ^^ k) (searchNFTs_begin st c))) = Some q \<longrightarrow>
            error (fst (searchNFTs st c rs)) = Some (surfaced err) \<and>
            searchResults (fst (searchNFTs st c rs)) = (if resetResults c then [] else searchResults st) \<and>
            hasMore (fst (searchNFTs st c rs)) = (if resetResults c then True else hasMore st) \<and>
            \<not> isLoading (fst (searchNFTs st c rs)) \<and> \<not> isLoadingMore (fst (searchNFTs st c rs)) \<and>
            snd (searchNFTs st c rs) = fst (snd ((deliver rs ^^ k) (searchNFTs_begin st c))) @ [ConsoleError err] \<and>
            distinct (map endpoint_of (requests (snd (searchNFTs st c rs)))))"
proof (intro conjI impI)
  assume "i < length (inflight sys) \<and> inflight sys ! i = q"
  then show "step sys (Response i rs) =
              \<lparr>ui = (ui sys)\<lparr>error := Some (surfaced err),
                             searchResults := (if resetResults (call_of q) then [] else searchResults (ui sys)),
                             isLoading := False, isLoadingMore := False\<rparr>,
               inflight = take i (inflight sys) @ drop (Suc i) (inflight sys),
               effects = effects sys @ [ConsoleError err]\<rparr>"
    using step_failure[of i sys rs err] assms by auto
next
  assume p: "snd (snd ((deliver rs ^^ k) (searchNFTs_begin st c))) = Some q"
  note f = call_failure[OF p assms]
  show "error (fst (searchNFTs st c rs)) = Some (surfaced err)" by (simp add: f(1))
  show "searchResults (fst (searchNFTs st c rs)) = (if resetResults c then [] else searchResults st)"
    by (simp add: f(1))
  show "hasMore (fst (searchNFTs st c rs)) = (if resetResults c then True else hasMore st)"
    using f(2) by (simp add: f(1))
  show "\<not> isLoading (fst (searchNFTs st c rs))" by (simp add: f(1))
  show "\<not> isLoadingMore (fst (searchNFTs st c rs))" by (simp add: f(1))
  show "snd (searchNFTs st c rs) = fst (snd ((deliver rs ^^ k) (searchNFTs_begin st c))) @ [ConsoleError err]"
    by (simp add: f(1))
  show "distinct (map endpoint_of (requests (snd (searchNFTs st c rs))))"
    by (rule sound_searchNFTs)
qed

text \<open>
  The network goes down under a continuation in the event loop; the listing request of
  a continuation run on its own is not \<open>ok\<close>; the name search of a first page is
  rejected. The two continuations keep the tokens 9 and 10 and \<open>hasMore\<close>; the first page
  ends empty.
\<close>

theorem failed_fetch_witness:
  "inflight (run initial_system continuing) = [AwaitContract azuki_more azuki] \<and>
   map tokenId (searchResults (ui (run initial_system continuing))) = [''9'', ''10''] \<and>
   hasMore (ui (run initial_system continuing)) \<and>
   step (run initial_system continuing) (Response 0 network_down) =
     \<lparr>ui = (ui (run initial_system continuing))\<lparr>error := Some ''Failed to fetch'',
             searchResults := searchResults (ui (run initial_system continuing)),
             isLoading := False, isLoadingMore := False\<rparr>,
      inflight = [],
      effects = effects (run initial_system continuing) @ [ConsoleError (Some ''Failed to fetch'')]\<rparr> \<and>
   error (fst (searchNFTs after_small_page azuki_more listing_not_ok)) = Some ''Failed to fetch NFTs from collection'' \<and>
   searchResults (fst (searchNFTs after_small_page azuki_more listing_not_ok)) = searchResults after_small_page \<and>
   hasMore (fst (searchNFTs after_small_page azuki_more listing_not_ok)) = hasMore after_small_page \<and>
   snd (searchNFTs after_small_page azuki_more listing_not_ok) =
     [Fetch (GetContractMetadata azuki), Fetch (GetNFTsForCollection azuki 100 (Some ''k1'')),
      ConsoleError (Some ''Failed to fetch NFTs from collection'')] \<and>
   length (searchResults after_small_page) = 2 \<and>
   error (fst (searchNFTs after_small_page (typed ''Azuki'') network_down)) = Some ''Failed to fetch'' \<and>
   searchResults (fst (searchNFTs after_small_page (typed ''Azuki'') network_down)) = [] \<and>
   snd (searchNFTs after_small_page (typed ''Azuki'') network_down) =
     [Fetch (SearchContractMetadata ''Azuki'' 1 1), ConsoleError (Some ''Failed to fetch'')]"
proof -
  have i: "inflight (run initial_system continuing) = [AwaitContract azuki_more azuki]"
    by code_simp
  have r: "map tokenId (searchResults (ui (run initial_system continuing))) = [''9'', ''10'']"
    by code_simp
  have h: "hasMore (ui (run initial_system continuing))"
    by code_simp
  have t1: "thrown (AwaitContract azuki_more azuki) network_down = Some (Some ''Failed to fetch'')"
    by (simp add: network_down_def failure_def)
  have a: "step (run initial_system continuing) (Response 0 network_down) =
     \<lparr>ui = (ui (run initial_system continuing))\<lparr>error := Some ''Failed to fetch'',
             searchResults := searchResults (ui (run initial_system continuing)),
             isLoading := False, isLoadingMore := False\<rparr>,
      inflight = [],
      effects = effects (run initial_system continuing) @ [ConsoleError (Some ''Failed to fetch'')]\<rparr>"
    using failed_fetch[OF t1, where i=0 and sys="run initial_system continuing"] i
    by (simp add: surfaced_def azuki_more_def)
  have p2: "snd (snd ((deliver listing_not_ok ^^ 1) (searchNFTs_begin after_small_page azuki_more))) =
      Some (AwaitNFTs azuki_more azuki ''Azuki'')"
    by code_simp
  have e2: "fst (snd ((deliver listing_not_ok ^^ 1) (searchNFTs_begin after_small_page azuki_more))) =
      [Fetch (GetContractMetadata azuki), Fetch (GetNFTsForCollection azuki 100 (Some ''k1''))]"
    by code_simp
  have t2: "thrown (AwaitNFTs azuki_more azuki ''Azuki'') listing_not_ok =
      Some (Some ''Failed to fetch NFTs from collection'')"
    by (simp add: listing_not_ok_def failure_def)
  have b: "error (fst (searchNFTs after_small_page azuki_more listing_not_ok)) = Some ''Failed to fetch NFTs from collection'' \<and>
      searchResults (fst (searchNFTs after_small_page azuki_more listing_not_ok)) = searchResults after_small_page \<and>
      hasMore (fst (searchNFTs after_small_page azuki_more listing_not_ok)) = hasMore after_small_page \<and>
      snd (searchNFTs after_small_page azuki_more listing_not_ok) =
        [Fetch (GetContractMetadata azuki), Fetch (GetNFTsForCollection azuki 100 (Some ''k1'')),
         ConsoleError (Some ''Failed to fetch NFTs from collection'')]"
    using failed_fetch[OF t2, where k=1 and st=after_small_page and c=azuki_more] p2 e2
    by (simp add: surfaced_def azuki_more_def)
  have p3: "snd (snd ((deliver network_down ^^ 0) (searchNFTs_begin after_small_page (typed ''Azuki'')))) =
      Some (AwaitSearch (typed ''Azuki''))"
    by code_simp
  have e3: "fst (snd ((deliver network_down ^^ 0) (searchNFTs_begin after_small_page (typed ''Azuki'')))) =
      [Fetch (SearchContractMetadata ''Azuki'' 1 1)]"
    by code_simp
  have t3: "thrown (AwaitSearch (typed ''Azuki'')) network_down = Some (Some ''Failed to fetch'')"
    by (simp add: network_down_def failure_def)
  have l: "length (searchResults after_small_page) = 2" by code_simp
  have c: "error (fst (searchNFTs after_small_page (typed ''Azuki'') network_down)) = Some ''Failed to fetch'' \<and>
      searchResults (fst (searchNFTs after_small_page (typed ''Azuki'') network_down)) = [] \<and>
      snd (searchNFTs after_small_page (typed ''Azuki'') network_down) =
        [Fetch (SearchContractMetadata ''Azuki'' 1 1), ConsoleError (Some ''Failed to fetch'')]"
    using failed_fetch[OF t3, where k=0 and st=after_small_page and c="typed ''Azuki''"] p3 e3
    by (simp add: surfaced_def typed_def)
  show ?thesis using i r h a b c l by blast
qed

text \<open>
  Claim C6. When the listing response of a first-page call has no items, the error is
  \<open>No NFTs found in this collection\<close>, the accumulation is empty, \<open>hasMore\<close> is false and
  the call ends without another request. A response with items never leaves the
  accumulation empty, so the state differs from one that is exhausted after results.
\<close>

theorem empty_first_page_not_found:
  assumes "resetResults c" and "nfts nd = None \<or> nfts nd = Some []"
  shows "error (fst (on_nfts st c cn (Resolved nd))) = Some ''No NFTs found in this collection'' \<and>
         searchResults (fst (on_nfts st c cn (Resolved nd))) = [] \<and>
         \<not> hasMore (fst (on_nfts st c cn (Resolved nd))) \<and>
         snd (on_nfts st c cn (Resolved nd)) = ([], None) \<and>
         (\<forall>n ns. nfts nd' = Some (n # ns) \<longrightarrow>
            searchResults (fst (on_nfts st' c' cn' (Resolved nd'))) \<noteq> [])"
  using assms by (auto simp: on_nfts_def Let_def finally_block_def mergeResults_nonempty)

text \<open>An empty first page after two items, against the page that had brought them.\<close>

theorem empty_first_page_not_found_witness:
  "error (fst (on_nfts after_small_page azuki_pick ''Azuki'' (Resolved empty_page))) =
     Some ''No NFTs found in this collection'' \<and>
   searchResults (fst (on_nfts after_small_page azuki_pick ''Azuki'' (Resolved empty_page))) = [] \<and>
   \<not> hasMore (fst (on_nfts after_small_page azuki_pick ''Azuki'' (Resolved empty_page))) \<and>
   searchResults (fst (on_nfts initial_state azuki_pick ''Azuki'' (Resolved small_page))) \<noteq> []"
proof -
  have r: "resetResults azuki_pick" by (simp add: azuki_pick_def)
  have e: "nfts empty_page = None \<or> nfts empty_page = Some []" by (simp add: empty_page_def)
  have p: "nfts small_page = Some (token ''10'' None # [token ''9'' None, token ''10'' (Some ''again'')])"
    by (simp add: small_page_def)
  show ?thesis
    using empty_first_page_not_found[OF r e, of after_small_page "''Azuki''" small_page
        initial_state azuki_pick "''Azuki''"] p
    by blast
qed

subsection \<open>Beginning a search\<close>

text \<open>
  Claim C7. A call with \<open>resetResults\<close> and a query or a contract address has, when it
  reaches its first \<open>await\<close>, emptied the accumulation, set the cursor to null and set
  \<open>hasMore\<close>, whatever the state was.
\<close>

theorem new_search_resets:
  assumes "query c \<noteq> [] \<or> truthy (contractAddress c)" and "resetResults c"
  shows "searchResults (fst (searchNFTs_begin st c)) = [] \<and>
         pageKey (fst (searchNFTs_begin st c)) = None \<and>
         hasMore (fst (searchNFTs_begin st c))"
  using assms by (auto simp: searchNFTs_begin_def Let_def resolved_def)

text \<open>A search begun on an exhausted session with two items and a cursor.\<close>

theorem new_search_resets_witness:
  "length (searchResults (after_small_page\<lparr>hasMore := False\<rparr>)) = 2 \<and>
   pageKey (after_small_page\<lparr>hasMore := False\<rparr>) = Some ''k1'' \<and>
   searchResults (fst (searchNFTs_begin (after_small_page\<lparr>hasMore := False\<rparr>) (typed ''Doodles''))) = [] \<and>
   pageKey (fst (searchNFTs_begin (after_small_page\<lparr>hasMore := False\<rparr>) (typed ''Doodles''))) = None \<and>
   hasMore (fst (searchNFTs_begin (after_small_page\<lparr>hasMore := False\<rparr>) (typed ''Doodles'')))"
proof -
  have h: "query (typed ''Doodles'') \<noteq> [] \<or> truthy (contractAddress (typed ''Doodles''))"
      "resetResults (typed ''Doodles'')"
    by (simp_all add: typed_def)
  have l: "length (searchResults (after_small_page\<lparr>hasMore := False\<rparr>)) = 2" by code_simp
  have k: "pageKey (after_small_page\<lparr>hasMore := False\<rparr>) = Some ''k1''" by code_simp
  show ?thesis
    using new_search_resets[OF h, of "after_small_page\<lparr>hasMore := False\<rparr>"] l k by blast
qed

text \<open>
  Claim C10. A call with an empty query and no contract address (none given, or an empty
  one) returns the state it was given and has done nothing; as an event it leaves the
  whole system as it was.
\<close>

theorem empty_search_noop:
  "searchNFTs st \<lparr>query = [], contractAddress = None, resetResults = r, closure_pageKey = pk\<rparr> rs = (st, []) \<and>
   searchNFTs st \<lparr>query = [], contractAddress = Some [], resetResults = r, closure_pageKey = pk\<rparr> rs = (st, []) \<and>
   step sys (Search [] None pk) = sys"
  by (simp add: searchNFTs_def searchNFTs_begin_def deliver_def truthy_def launch_def suspended_def)

subsection \<open>Overlapping calls\<close>

text \<open>
  Claim C5, as amended. In a run from the initial system in which no search is begun
  while a call is suspended, at most one call is suspended at any time, and while one is,
  or while \<open>hasMore\<close> is false, the observer firing leaves the system as it was: no
  request, no change of state. In any system at all, the observer firing while
  \<open>isLoading\<close> or \<open>isLoadingMore\<close> is set or \<open>hasMore\<close> is false leaves it as it was.
\<close>

theorem continuation_guard:
  assumes "calm initial_system evs"
  shows "length (inflight (run initial_system evs)) \<le> 1 \<and>
         (inflight (run initial_system evs) \<noteq> [] \<or> \<not> hasMore (ui (run initial_system evs)) \<longrightarrow>
            step (run initial_system evs) (Intersect b pk) = run initial_system evs) \<and>
         (isLoading (ui sys) \<or> isLoadingMore (ui sys) \<or> \<not> hasMore (ui sys) \<longrightarrow>
            step sys (Intersect b pk) = sys)"
proof -
  have "one_at_a_time initial_system"
    by (simp add: one_at_a_time_def initial_system_def)
  then have inv: "one_at_a_time (run initial_system evs)"
    using assms by (rule one_at_a_time_run)
  have g: "step s (Intersect b pk) = s"
    if "isLoading (ui s) \<or> isLoadingMore (ui s) \<or> \<not> hasMore (ui s)" for s
    using that by (simp add: observer_guard launch_nothing)
  show ?thesis using inv g by (auto simp: one_at_a_time_def)
qed

text \<open>One search begun, its first request unanswered: the observer firing changes nothing.\<close>

theorem continuation_guard_witness:
  "calm initial_system [Search ''Azuki'' (Some azuki) None] \<and>
   inflight (run initial_system [Search ''Azuki'' (Some azuki) None]) = [AwaitContract azuki_pick azuki] \<and>
   step (run initial_system [Search ''Azuki'' (Some azuki) None]) (Intersect True None) =
     run initial_system [Search ''Azuki'' (Some azuki) None] \<and>
   isLoading (ui (run initial_system [Search ''Azuki'' (Some azuki) None]))"
proof -
  have c: "calm initial_system [Search ''Azuki'' (Some azuki) None]"
    by (simp add: initial_system_def)
  have i: "inflight (run initial_system [Search ''Azuki'' (Some azuki) None]) = [AwaitContract azuki_pick azuki]"
    by code_simp
  have l: "isLoading (ui (run initial_system [Search ''Azuki'' (Some azuki) None]))"
    by code_simp
  show ?thesis
    using continuation_guard[OF c, of True None "run initial_system [Search ''Azuki'' (Some azuki) None]"] c i l
    by simp
qed

text \<open>
  A second search is begun before the first is answered, and then the first is answered.
  Its \<open>finally\<close> block clears \<open>isLoading\<close> while the second search still awaits its first
  request; the observer firing now begins a continuation for the second collection, so
  two calls for it are suspended at once.
\<close>

theorem trigger_during_overlapping_search:
  "inflight (run initial_system overlapping_searches) = [AwaitContract (doodles_call True ''Doodles'') doodles] \<and>
   inflight (step (run initial_system overlapping_searches) (Intersect True None)) =
     [AwaitContract (doodles_call True ''Doodles'') doodles,
      AwaitContract (doodles_call False doodles) doodles] \<and>
   effects (step (run initial_system overlapping_searches) (Intersect True None)) =
     effects (run initial_system overlapping_searches) @ [Fetch (GetContractMetadata doodles)] \<and>
   \<not> isLoadingMore (ui (run initial_system overlapping_searches)) \<and>
   isLoadingMore (ui (step (run initial_system overlapping_searches) (Intersect True None)))"
  by code_simp

text \<open>
  Claim C9, as amended. Beginning a search resets the accumulation, the cursor and
  \<open>hasMore\<close> at once, and leaves every suspended call suspended. Calls carry no session
  identity: when the listing response of a suspended first-page call arrives with items,
  whenever that is, the accumulation becomes that page (deduplicated and sorted) and the
  cursor and \<open>hasMore\<close> are set from that response.
\<close>

theorem late_response_applied:
  assumes "i < length (inflight sys)" and "inflight sys ! i = AwaitNFTs c t cn" and "resetResults c"
    and "nftsResponse rs = Resolved nd" and "nfts nd = Some (n # ns)"
  shows "searchResults (ui (step sys (Response i rs))) = mergeResults True [] (map (formatNFT cn) (n # ns)) \<and>
         pageKey (ui (step sys (Response i rs))) = (if truthy (nfts_pageKey nd) then nfts_pageKey nd else None) \<and>
         hasMore (ui (step sys (Response i rs))) = truthy (nfts_pageKey nd) \<and>
         (\<forall>q ca pk. (q \<noteq> [] \<or> truthy ca) \<longrightarrow>
            searchResults (ui (step sys (Search q ca pk))) = [] \<and>
            pageKey (ui (step sys (Search q ca pk))) = None \<and>
            hasMore (ui (step sys (Search q ca pk))) \<and>
            take (length (inflight sys)) (inflight (step sys (Search q ca pk))) = inflight sys)"
  using assms
  by (auto simp: on_nfts_def Let_def finally_block_def mergeResults_def launch_def
      searchNFTs_begin_def resolved_def split: prod.splits)

text \<open>
  The search for Doodles has been answered and shows token 7; the earlier search for
  Azuki is still suspended at its listing request, and a third search leaves it so.
\<close>

theorem late_response_applied_witness:
  "inflight (run initial_system stale_response) = [AwaitNFTs azuki_pick azuki ''Azuki''] \<and>
   searchResults (ui (step (run initial_system stale_response) (Response 0 (listing azuki ''1'' None)))) =
     mergeResults True [] (map (formatNFT ''Azuki'') [token ''1'' None]) \<and>
   pageKey (ui (step (run initial_system stale_response) (Response 0 (listing azuki ''1'' None)))) = None \<and>
   hasMore (ui (step (run initial_system stale_response) (Response 0 (listing azuki ''1'' None)))) = False \<and>
   searchResults (ui (step (run initial_system stale_response) (Search ''Cool Cats'' None None))) = [] \<and>
   take 1 (inflight (step (run initial_system stale_response) (Search ''Cool Cats'' None None))) =
     [AwaitNFTs azuki_pick azuki ''Azuki'']"
proof -
  have i: "inflight (run initial_system stale_response) = [AwaitNFTs azuki_pick azuki ''Azuki'']"
    by code_simp
  have h: "0 < length (inflight (run initial_system stale_response))"
      "inflight (run initial_system stale_response) ! 0 = AwaitNFTs azuki_pick azuki ''Azuki''"
    by (simp_all add: i)
  have r: "resetResults azuki_pick" by (simp add: azuki_pick_def)
  have l: "nftsResponse (listing azuki ''1'' None) = Resolved \<lparr>nfts = Some [token ''1'' None], nfts_pageKey = None\<rparr>"
    by (simp add: listing_def token_def)
  have n: "nfts \<lparr>nfts = Some [token ''1'' None], nfts_pageKey = None\<rparr> = Some (token ''1'' None # [])"
    by simp
  have q: "''Cool Cats'' \<noteq> [] \<or> truthy None" by simp
  show ?thesis
    using late_response_applied[OF h r l n] i q by (simp add: truthy_def)
qed

text \<open>
  The search for Doodles is the current one and shows its token 7 with cursor \<open>k7\<close>. The
  listing response of the abandoned search for Azuki arrives: the accumulation is now
  Azuki's token 1, the cursor is null and \<open>hasMore\<close> is false, while the current contract
  address is still that of Doodles.
\<close>

theorem stale_response_overwrites:
  "currentContractAddress (ui (run initial_system stale_response)) = Some doodles \<and>
   map (\<lambda>x. (address (contract x), tokenId x)) (searchResults (ui (run initial_system stale_response))) =
     [(doodles, ''7'')] \<and>
   pageKey (ui (run initial_system stale_response)) = Some ''k7'' \<and>
   hasMore (ui (run initial_system stale_response)) \<and>
   currentContractAddress (ui (run initial_system (stale_response @ [Response 0 (listing azuki ''1'' None)]))) =
     Some doodles \<and>
   map (\<lambda>x. (address (contract x), tokenId x))
     (searchResults (ui (run initial_system (stale_response @ [Response 0 (listing azuki ''1'' None)])))) =
     [(azuki, ''1'')] \<and>
   pageKey (ui (run initial_system (stale_response @ [Response 0 (listing azuki ''1'' None)]))) = None \<and>
   \<not> hasMore (ui (run initial_system (stale_response @ [Response 0 (listing azuki ''1'' None)])))"
  by code_simp

end
